theory Spec2Isabelle
  imports Main "HOL-Library.Signed_Division"
begin

section \<open>Go values used by the program\<close>

text \<open>
  A Go \<^verbatim>\<open>string\<close> is a sequence of bytes, here a \<^typ>\<open>string\<close>. A Go \<^verbatim>\<open>error\<close> is
  either the sentinel \<^verbatim>\<open>io.EOF\<close>, which the program compares by identity, or some other
  error, of which the program only ever prints the text.
\<close>

datatype error = EOF | Error string

fun errorText :: "error \<Rightarrow> string" where
  "errorText EOF = ''EOF''"
| "errorText (Error msg) = msg"

text \<open>\<^verbatim>\<open>fmt.Errorf(prefix + "%v", err)\<close>: a new error whose text is the prefix followed by
  the text of \<^verbatim>\<open>err\<close>.\<close>

definition Errorf :: "string \<Rightarrow> error \<Rightarrow> error" where
  "Errorf prefix err = Error (prefix @ errorText err)"

text \<open>The program's own \<^verbatim>\<open>min\<close> on Go \<^verbatim>\<open>int\<close>.\<close>

definition min' :: "int \<Rightarrow> int \<Rightarrow> int" where
  "min' a b = (if a < b then a else b)"

section \<open>The \<^verbatim>\<open>strings\<close> package\<close>

text \<open>
  \<^verbatim>\<open>strings.TrimSpace\<close> removes leading and trailing white space as defined by Unicode.
  On the bytes of a string these are the UTF-8 encodings of the code points with the
  White\_Space property: the six ASCII ones, U+0085, U+00A0, U+1680, U+2000 to U+200A,
  U+2028, U+2029, U+202F, U+205F and U+3000. A byte that starts no valid encoding decodes
  to the replacement character, which is not white space, so trimming stops there.
\<close>

definition unicodeSpaces :: "string list" where
  "unicodeSpaces =
     [[CHR 0x09], [CHR 0x0A], [CHR 0x0B], [CHR 0x0C], [CHR 0x0D], [CHR 0x20],
      [CHR 0xC2, CHR 0x85], [CHR 0xC2, CHR 0xA0],
      [CHR 0xE1, CHR 0x9A, CHR 0x80],
      [CHR 0xE2, CHR 0x80, CHR 0x80], [CHR 0xE2, CHR 0x80, CHR 0x81],
      [CHR 0xE2, CHR 0x80, CHR 0x82], [CHR 0xE2, CHR 0x80, CHR 0x83],
      [CHR 0xE2, CHR 0x80, CHR 0x84], [CHR 0xE2, CHR 0x80, CHR 0x85],
      [CHR 0xE2, CHR 0x80, CHR 0x86], [CHR 0xE2, CHR 0x80, CHR 0x87],
      [CHR 0xE2, CHR 0x80, CHR 0x88], [CHR 0xE2, CHR 0x80, CHR 0x89],
      [CHR 0xE2, CHR 0x80, CHR 0x8A],
      [CHR 0xE2, CHR 0x80, CHR 0xA8], [CHR 0xE2, CHR 0x80, CHR 0xA9],
      [CHR 0xE2, CHR 0x80, CHR 0xAF],
      [CHR 0xE2, CHR 0x81, CHR 0x9F],
      [CHR 0xE3, CHR 0x80, CHR 0x80]]"

text \<open>The number of bytes of the white-space encoding that \<open>s\<close> starts with, \<open>0\<close> if
  it starts with none.\<close>

definition spaceWidth :: "string list \<Rightarrow> string \<Rightarrow> nat" where
  "spaceWidth encs s =
     (case filter (\<lambda>p. take (length p) s = p) encs of [] \<Rightarrow> 0 | p # _ \<Rightarrow> length p)"

fun trimLeft :: "string list \<Rightarrow> string \<Rightarrow> string" where
  "trimLeft encs [] = []"
| "trimLeft encs (c # cs) =
     (case spaceWidth encs (c # cs) of
        0 \<Rightarrow> c # cs
      | Suc k \<Rightarrow> trimLeft encs (drop k cs))"

text \<open>Leading white space goes first, then trailing white space, which is leading white
  space of the reversed string with every encoding reversed.\<close>

definition TrimSpace :: "string \<Rightarrow> string" where
  "TrimSpace s =
     rev (trimLeft (map rev unicodeSpaces) (rev (trimLeft unicodeSpaces s)))"

text \<open>\<^verbatim>\<open>strings.Index\<close>: the position of the first occurrence of \<open>sep\<close>, \<open>None\<close> for Go's
  \<open>-1\<close>.\<close>

fun Index :: "string \<Rightarrow> string \<Rightarrow> nat option" where
  "Index [] sep = (if sep = [] then Some 0 else None)"
| "Index (c # cs) sep =
     (if take (length sep) (c # cs) = sep then Some 0 else map_option Suc (Index cs sep))"

text \<open>
  \<^verbatim>\<open>strings.Split\<close>: cut at the first occurrence of the separator, then split what
  follows it. Without an occurrence the result is the one-element sequence of \<open>s\<close>. (With
  an empty separator Go splits after every UTF-8 sequence; the program passes \<^verbatim>\<open>"---"\<close>
  only, and the equation splits after every byte there.)
\<close>

function Split :: "string \<Rightarrow> string \<Rightarrow> string list" where
  "Split s sep =
     (if sep = [] then map (\<lambda>c. [c]) s
      else case Index s sep of
             None \<Rightarrow> [s]
           | Some m \<Rightarrow> take m s # Split (drop (m + length sep) s) sep)"
  by pat_completeness auto

termination
proof (relation "measure (\<lambda>(s, sep). length s)")
  show "wf (measure (\<lambda>(s, sep). length s))" by simp
next
  fix s sep :: string and m
  assume nonempty: "sep \<noteq> []" and found: "Index s sep = Some m"
  have bound: "Index t sep = Some k \<Longrightarrow> k + length sep \<le> length t" for t k
  proof (induction t arbitrary: k)
    case Nil
    then show ?case by (simp split: if_splits)
  next
    case (Cons c cs)
    show ?case
    proof (cases "take (length sep) (c # cs) = sep")
      case True
      have "length (take (length sep) (c # cs)) \<le> length (c # cs)"
        by simp
      with True have "length sep \<le> length (c # cs)"
        by simp
      moreover from True Cons.prems have "k = 0"
        by simp
      ultimately show ?thesis by simp
    next
      case False
      with Cons.prems obtain j where "Index cs sep = Some j" "k = Suc j" by auto
      with Cons.IH show ?thesis by fastforce
    qed
  qed
  from found have "m + length sep \<le> length s"
    by (rule bound)
  moreover from nonempty have "0 < length sep"
    by simp
  ultimately have "length s - (m + length sep) < length s"
    by arith
  then show "((drop (m + length sep) s, sep), (s, sep)) \<in> measure (\<lambda>(s, sep). length s)"
    by simp
qed

declare Split.simps [simp del]

section \<open>The YAML decoder\<close>

text \<open>
  The decoder of \<^verbatim>\<open>gopkg.in/yaml.v3\<close> is outside the repository. It is a parameter: a
  decoder state made from the bytes, and \<^verbatim>\<open>Decode\<close>, which gives the next document or an
  error (\<^const>\<open>EOF\<close> at the end of the stream) and the next state. A document is a
  \<^verbatim>\<open>map[string]interface{}\<close>, possibly \<^verbatim>\<open>nil\<close>; the program never looks inside one.
\<close>

record ('d, 'doc) yaml =
  NewDecoder :: "string \<Rightarrow> 'd"
  Decode :: "'d \<Rightarrow> (error + 'doc) \<times> 'd"

text \<open>The loop of \<^verbatim>\<open>parseYAMLDocuments\<close>. Nothing in the program bounds it: it ends when
  the decoder reports the end of the stream or an error. \<open>None\<close> is a loop that never
  ends.\<close>

partial_function (option) decodeLoop ::
  "('d, 'doc) yaml \<Rightarrow> 'd \<Rightarrow> 'doc list \<Rightarrow> (error + 'doc list) option" where
  "decodeLoop Y decoder documents =
     (case Decode Y decoder of
        (Inl err, decoder') \<Rightarrow> if err = EOF then Some (Inr documents) else Some (Inl err)
      | (Inr doc, decoder') \<Rightarrow> decodeLoop Y decoder' (documents @ [doc]))"

definition parseYAMLDocuments :: "('d, 'doc) yaml \<Rightarrow> string \<Rightarrow> (error + 'doc list) option" where
  "parseYAMLDocuments Y data = decodeLoop Y (NewDecoder Y data) []"

definition parseSingleYAMLDocument :: "('d, 'doc) yaml \<Rightarrow> string \<Rightarrow> error + 'doc" where
  "parseSingleYAMLDocument Y data =
     (case fst (Decode Y (NewDecoder Y data)) of
        Inl err \<Rightarrow> Inl err
      | Inr doc \<Rightarrow> Inr doc)"

section \<open>The expression environment\<close>

text \<open>
  The expression library \<^verbatim>\<open>cel-go\<close> is outside the repository, so its operations are
  parameters. \<^verbatim>\<open>env.Compile\<close> returns a syntax tree and issues, \<^verbatim>\<open>env.Program\<close> a program
  or an error; both are deterministic. \<^verbatim>\<open>Issues\<close> is a pointer that may be \<^verbatim>\<open>nil\<close>, and
  its \<^verbatim>\<open>Err()\<close> may be \<^verbatim>\<open>nil\<close>.
\<close>

datatype issues = Issues (Err: "error option")

record ('ast, 'prog) env =
  Compile :: "string \<Rightarrow> 'ast \<times> issues option"
  Program :: "'ast \<Rightarrow> error + 'prog"

text \<open>The test \<^verbatim>\<open>issues != nil && issues.Err() != nil\<close>, with the error it found.\<close>

definition issuesErr :: "issues option \<Rightarrow> error option" where
  "issuesErr issues = (case issues of None \<Rightarrow> None | Some i \<Rightarrow> Err i)"

text \<open>
  Evaluation and the clock act on the world outside the program (caches of the
  library, the time that passes), a state \<open>'w\<close> that every call takes and returns.
  \<^verbatim>\<open>program.Eval\<close> gets the activation, a map from variable names to documents, and
  returns a value or an error. \<^verbatim>\<open>time.Now\<close> reads the clock, in nanoseconds; a
  \<^verbatim>\<open>time.Duration\<close> is a difference of two readings (64 bits in Go; the model does not
  bound it).
\<close>

record ('prog, 'doc, 'val, 'w) runtime =
  Eval :: "'prog \<Rightarrow> (string \<rightharpoonup> 'doc) \<Rightarrow> 'w \<Rightarrow> (error + 'val) \<times> 'w"
  Now :: "'w \<Rightarrow> int \<times> 'w"

text \<open>The activation \<^verbatim>\<open>{"object": object, "params": params}\<close>.\<close>

definition activation :: "'doc \<Rightarrow> 'doc \<Rightarrow> (string \<rightharpoonup> 'doc)" where
  "activation object params = [''object'' \<mapsto> object, ''params'' \<mapsto> params]"

section \<open>Splitting the expression file\<close>

text \<open>Lines 201 to 205 of \<^verbatim>\<open>main\<close>: trim the whole text, split it at \<^verbatim>\<open>"---"\<close>, trim every
  segment in place.\<close>

definition splitExpressions :: "string \<Rightarrow> string list" where
  "splitExpressions expressionData =
     map TrimSpace (Split (TrimSpace expressionData) ''---'')"

section \<open>Batch compilation\<close>

text \<open>The loop of \<^verbatim>\<open>compileExpressions\<close>, with the programs appended so far.\<close>

fun compileLoop ::
  "('ast, 'prog) env \<Rightarrow> 'prog list \<Rightarrow> string list \<Rightarrow> error + 'prog list" where
  "compileLoop env programs [] = Inr programs"
| "compileLoop env programs (expr # rest) =
     (if expr = [] then compileLoop env programs rest
      else case Compile env expr of
        (ast, issues) \<Rightarrow>
          (case issuesErr issues of
             Some err \<Rightarrow> Inl (Errorf ''compilation failed: '' err)
           | None \<Rightarrow>
               (case Program env ast of
                  Inl err \<Rightarrow> Inl (Errorf ''failed to create program: '' err)
                | Inr program \<Rightarrow> compileLoop env (programs @ [program]) rest)))"

definition compileExpressions ::
  "('ast, 'prog) env \<Rightarrow> string list \<Rightarrow> error + 'prog list" where
  "compileExpressions env expressions = compileLoop env [] expressions"

section \<open>What the program prints\<close>

text \<open>
  One constructor for each format string of the program, with the values the format
  consumes. How a value or a duration is rendered is the business of \<^verbatim>\<open>fmt\<close>. The two
  rates are floating-point quotients \<^verbatim>\<open>float64(count) / duration.Seconds()\<close>; a rate line
  keeps the count and the duration (in nanoseconds) that the quotient is taken of.
  \<open>Fatal\<close> is the message of \<^verbatim>\<open>log.Fatal\<close>, \<open>Panic\<close> the report of a run-time panic.
\<close>

datatype 'val line =
    Usage
  | Fatal string error
  | ObjectHeader nat
  | ExpressionHeader nat string
  | CompilationFailed error
  | ProgramFailed error
  | EvaluationFailed error
  | Result 'val
  | BenchmarkBanner
  | WarmingUp
  | RunningBenchmark
  | BenchmarkError nat error
  | StatsHeader nat
  | Content string
  | Evaluations int
  | TotalTime int
  | AverageTime int
  | EvaluationsPerSecond int int
  | SummaryBanner
  | TotalDuration int
  | TotalEvaluations int
  | OverallEvaluationsPerSecond int int
  | Panic

section \<open>Interactive mode\<close>

text \<open>
  The body of the inner loop of \<^verbatim>\<open>main\<close> after the header is printed: compile, create
  the program, evaluate, and print one line, whichever of the four it is.
\<close>

definition evalCell ::
  "('ast, 'prog) env \<Rightarrow> ('prog, 'doc, 'val, 'w) runtime \<Rightarrow> 'doc \<Rightarrow> 'doc \<Rightarrow> string \<Rightarrow>
     'w \<Rightarrow> 'val line \<times> 'w" where
  "evalCell env R object params expr w =
     (case Compile env expr of
        (ast, issues) \<Rightarrow>
          (case issuesErr issues of
             Some err \<Rightarrow> (CompilationFailed err, w)
           | None \<Rightarrow>
               (case Program env ast of
                  Inl err \<Rightarrow> (ProgramFailed err, w)
                | Inr program \<Rightarrow>
                    (case Eval R program (activation object params) w of
                       (Inl err, w') \<Rightarrow> (EvaluationFailed err, w')
                     | (Inr out, w') \<Rightarrow> (Result out, w')))))"

text \<open>The inner loop, over the expressions from index \<open>exprIdx\<close> on.\<close>

fun expressionLoop ::
  "('ast, 'prog) env \<Rightarrow> ('prog, 'doc, 'val, 'w) runtime \<Rightarrow> 'doc \<Rightarrow> 'doc \<Rightarrow> nat \<Rightarrow>
     string list \<Rightarrow> 'w \<Rightarrow> 'val line list \<times> 'w" where
  "expressionLoop env R object params exprIdx [] w = ([], w)"
| "expressionLoop env R object params exprIdx (expr # rest) w =
     (if expr = [] then expressionLoop env R object params (exprIdx + 1) rest w
      else case evalCell env R object params expr w of
        (outcome, w') \<Rightarrow>
          (case expressionLoop env R object params (exprIdx + 1) rest w' of
             (lines, w'') \<Rightarrow> (ExpressionHeader (exprIdx + 1) expr # outcome # lines, w'')))"

text \<open>The outer loop, over the objects from index \<open>objIdx\<close> on.\<close>

fun objectLoop ::
  "('ast, 'prog) env \<Rightarrow> ('prog, 'doc, 'val, 'w) runtime \<Rightarrow> 'doc \<Rightarrow> string list \<Rightarrow> nat \<Rightarrow>
     'doc list \<Rightarrow> 'w \<Rightarrow> 'val line list \<times> 'w" where
  "objectLoop env R params expressions objIdx [] w = ([], w)"
| "objectLoop env R params expressions objIdx (object # rest) w =
     (case expressionLoop env R object params 0 expressions w of
        (cells, w') \<Rightarrow>
          (case objectLoop env R params expressions (objIdx + 1) rest w' of
             (lines, w'') \<Rightarrow> (ObjectHeader (objIdx + 1) # cells @ lines, w'')))"

definition interactive ::
  "('ast, 'prog) env \<Rightarrow> ('prog, 'doc, 'val, 'w) runtime \<Rightarrow> 'doc list \<Rightarrow> 'doc \<Rightarrow>
     string list \<Rightarrow> 'w \<Rightarrow> 'val line list \<times> 'w" where
  "interactive env R objects params expressions w =
     objectLoop env R params expressions 0 objects w"

section \<open>Benchmark mode\<close>

record exprStats =
  evalCount :: int
  duration :: int

text \<open>
  The warm-up: ten rounds, every program on every object, value and error dropped. Only
  the world keeps a trace of it.
\<close>

definition warmUp ::
  "('prog, 'doc, 'val, 'w) runtime \<Rightarrow> 'doc list \<Rightarrow> 'prog list \<Rightarrow> 'doc \<Rightarrow> 'w \<Rightarrow> 'w" where
  "warmUp R objects programs params =
     (fold (\<lambda>object.
        fold (\<lambda>program w. snd (Eval R program (activation object params) w)) programs)
      objects) ^^ 10"

text \<open>One iteration of the timed phase: the program on every object, stopping at the
  first error.\<close>

fun evalObjects ::
  "('prog, 'doc, 'val, 'w) runtime \<Rightarrow> 'prog \<Rightarrow> 'doc \<Rightarrow> 'doc list \<Rightarrow> 'w \<Rightarrow>
     error option \<times> 'w" where
  "evalObjects R program params [] w = (None, w)"
| "evalObjects R program params (object # rest) w =
     (case Eval R program (activation object params) w of
        (Inl err, w') \<Rightarrow> (Some err, w')
      | (Inr out, w') \<Rightarrow> evalObjects R program params rest w')"

text \<open>The loop on \<open>k\<close>, by the number of iterations still to run.\<close>

fun iterations ::
  "('prog, 'doc, 'val, 'w) runtime \<Rightarrow> 'prog \<Rightarrow> 'doc \<Rightarrow> 'doc list \<Rightarrow> nat \<Rightarrow> 'w \<Rightarrow>
     error option \<times> 'w" where
  "iterations R program params objects 0 w = (None, w)"
| "iterations R program params objects (Suc n) w =
     (case evalObjects R program params objects w of
        (Some err, w') \<Rightarrow> (Some err, w')
      | (None, w') \<Rightarrow> iterations R program params objects n w')"

text \<open>
  Why the timed phase stopped early: an evaluation error, with the ordinal the program
  prints, or the run-time panic of Go for \<^verbatim>\<open>stats[i]\<close> out of range.
\<close>

datatype abort = EvalAbort nat error | IndexPanic

text \<open>The loop over the programs from index \<open>i\<close> on.\<close>

fun timedLoop ::
  "('prog, 'doc, 'val, 'w) runtime \<Rightarrow> 'doc list \<Rightarrow> 'doc \<Rightarrow> nat \<Rightarrow> 'prog list \<Rightarrow>
     exprStats list \<Rightarrow> 'w \<Rightarrow> (abort + exprStats list) \<times> 'w" where
  "timedLoop R objects params i [] stats w = (Inr stats, w)"
| "timedLoop R objects params i (program # rest) stats w =
     (case Now R w of
        (exprStart, w1) \<Rightarrow>
          (case iterations R program params objects (1024 * 1024) w1 of
             (Some err, w2) \<Rightarrow> (Inl (EvalAbort (i + 1) err), w2)
           | (None, w2) \<Rightarrow>
               (case Now R w2 of
                  (t, w3) \<Rightarrow>
                    if i < length stats then
                      let stats1 = stats[i := (stats ! i)\<lparr>duration := duration (stats ! i) + (t - exprStart)\<rparr>];
                          stats2 = stats1[i := (stats1 ! i)\<lparr>evalCount := 1024 * 1024\<rparr>]
                      in timedLoop R objects params (i + 1) rest stats2 w3
                    else (Inl IndexPanic, w3))))"

text \<open>The report of one program after the other, from index \<open>i\<close> on. The average is
  Go's integer division, which truncates.\<close>

fun reportStats :: "string list \<Rightarrow> int \<Rightarrow> nat \<Rightarrow> exprStats list \<Rightarrow> 'val line list" where
  "reportStats expressions totalDuration i [] = []"
| "reportStats expressions totalDuration i (stat # rest) =
     [StatsHeader (i + 1)]
     @ (if i < length expressions
        then [Content (take (nat (min' 50 (int (length (expressions ! i))))) (expressions ! i) @ ''...'')]
        else [])
     @ [Evaluations (evalCount stat), TotalTime (duration stat)]
     @ (if evalCount stat > 0
        then [AverageTime (duration stat sdiv evalCount stat),
              EvaluationsPerSecond (evalCount stat) totalDuration]
        else [])
     @ reportStats expressions totalDuration (i + 1) rest"

definition totalEvals :: "exprStats list \<Rightarrow> int" where
  "totalEvals stats = fold (\<lambda>stat total. total + evalCount stat) stats 0"

text \<open>
  Lines 101 to 151 of \<^verbatim>\<open>runBenchmark\<close>: the timed phase on the statistics \<open>stats\<close>, then
  the report, or the error line and nothing after it.
\<close>

definition timedPhase ::
  "('prog, 'doc, 'val, 'w) runtime \<Rightarrow> 'doc list \<Rightarrow> 'prog list \<Rightarrow> 'doc \<Rightarrow> string list \<Rightarrow>
     exprStats list \<Rightarrow> 'w \<Rightarrow> 'val line list \<times> 'w" where
  "timedPhase R objects programs params expressions stats w0 =
     (case Now R w0 of
        (startTime, w1) \<Rightarrow>
          (case timedLoop R objects params 0 programs stats w1 of
             (Inl (EvalAbort ordinal err), w2) \<Rightarrow>
               ([RunningBenchmark, BenchmarkError ordinal err], w2)
           | (Inl IndexPanic, w2) \<Rightarrow>
               ([RunningBenchmark, Panic], w2)
           | (Inr stats', w2) \<Rightarrow>
               (case Now R w2 of
                  (t, w3) \<Rightarrow>
                    let totalDuration = t - startTime
                    in ([RunningBenchmark]
                        @ reportStats expressions totalDuration 0 stats'
                        @ [SummaryBanner, TotalDuration totalDuration,
                           TotalEvaluations (totalEvals stats'),
                           OverallEvaluationsPerSecond (totalEvals stats') totalDuration],
                        w3))))"

text \<open>\<^verbatim>\<open>runBenchmark\<close>: the warm-up, then fresh statistics, one for each program
  (\<^verbatim>\<open>make\<close> zeroes them), then the timed phase and the report.\<close>

definition runBenchmark ::
  "('prog, 'doc, 'val, 'w) runtime \<Rightarrow> 'doc list \<Rightarrow> 'prog list \<Rightarrow> 'doc \<Rightarrow> string list \<Rightarrow>
     'w \<Rightarrow> 'val line list \<times> 'w" where
  "runBenchmark R objects programs params expressions w =
     (let w0 = warmUp R objects programs params w;
          stats = replicate (length programs) \<lparr>evalCount = 0, duration = 0\<rparr>
      in case timedPhase R objects programs params expressions stats w0 of
        (lines, w') \<Rightarrow> (BenchmarkBanner # WarmingUp # lines, w'))"

section \<open>The program\<close>

text \<open>
  What \<^verbatim>\<open>main\<close> needs from outside: the file system (read only), the YAML decoder, the
  result of \<^verbatim>\<open>cel.NewEnv\<close> with the two declarations and the string extensions, and the
  run time of programs and clock.
\<close>

record ('d, 'doc, 'ast, 'prog, 'val, 'w) platform =
  ReadFile :: "string \<Rightarrow> error + string"
  YAML :: "('d, 'doc) yaml"
  NewEnv :: "error + ('ast, 'prog) env"
  Runtime :: "('prog, 'doc, 'val, 'w) runtime"

definition loadFile :: "('d, 'doc, 'ast, 'prog, 'val, 'w) platform \<Rightarrow> string \<Rightarrow> error + string" where
  "loadFile P filename = ReadFile P filename"

text \<open>The loop over the arguments: the mode flag and the other arguments, in order.\<close>

definition filterArgs :: "string list \<Rightarrow> bool \<times> string list" where
  "filterArgs args =
     fold (\<lambda>arg (benchmarkMode, filteredArgs).
             if arg = ''--benchmark'' then (True, filteredArgs)
             else (benchmarkMode, filteredArgs @ [arg]))
          args (False, [])"

text \<open>The exit status after the last line: \<open>2\<close> after a panic, else \<open>0\<close>.\<close>

definition exitStatus :: "'val line list \<Rightarrow> nat" where
  "exitStatus lines = (if Panic \<in> set lines then 2 else 0)"

text \<open>
  \<^verbatim>\<open>main\<close> gives the lines printed and the exit status, and the world it leaves. Usage
  error and \<^verbatim>\<open>log.Fatal\<close> end the process with status \<open>1\<close>. \<open>None\<close> is a run that never
  ends.
\<close>

definition main ::
  "('d, 'doc, 'ast, 'prog, 'val, 'w) platform \<Rightarrow> string list \<Rightarrow> 'w \<Rightarrow>
     (('val line list \<times> nat) \<times> 'w) option" where
  "main P args w =
     (case filterArgs args of
        (benchmarkMode, filteredArgs) \<Rightarrow>
          if length filteredArgs < 3 then Some (([Usage], 1), w)
          else
            let objectFile = filteredArgs ! 0;
                expressionFile = filteredArgs ! 1;
                paramsFile = filteredArgs ! 2
            in case loadFile P objectFile of
              Inl err \<Rightarrow> Some (([Fatal ''Failed to read object file: '' err], 1), w)
            | Inr objectData \<Rightarrow>
            (case parseYAMLDocuments (YAML P) objectData of
              None \<Rightarrow> None
            | Some (Inl err) \<Rightarrow> Some (([Fatal ''Failed to parse object YAML: '' err], 1), w)
            | Some (Inr objects) \<Rightarrow>
            (case loadFile P expressionFile of
              Inl err \<Rightarrow> Some (([Fatal ''Failed to read expression file: '' err], 1), w)
            | Inr expressionData \<Rightarrow>
            (let expressions = splitExpressions expressionData
             in case loadFile P paramsFile of
              Inl err \<Rightarrow> Some (([Fatal ''Failed to read params file: '' err], 1), w)
            | Inr paramsData \<Rightarrow>
            (case parseSingleYAMLDocument (YAML P) paramsData of
              Inl err \<Rightarrow> Some (([Fatal ''Failed to parse params YAML: '' err], 1), w)
            | Inr params \<Rightarrow>
            (case NewEnv P of
              Inl err \<Rightarrow> Some (([Fatal ''Failed to create CEL environment: '' err], 1), w)
            | Inr env \<Rightarrow>
                if benchmarkMode then
                  (case compileExpressions env expressions of
                     Inl err \<Rightarrow>
                       Some (([Fatal ''Failed to compile expressions for benchmark: '' err], 1), w)
                   | Inr programs \<Rightarrow>
                       (case runBenchmark (Runtime P) objects programs params expressions w of
                          (lines, w') \<Rightarrow> Some ((lines, exitStatus lines), w')))
                else
                  (case interactive env (Runtime P) objects params expressions w of
                     (lines, w') \<Rightarrow> Some ((lines, 0), w'))))))))"

section \<open>Reading the output\<close>

text \<open>
  The result cells of interactive mode, as a reader of the output finds them: every
  line that reports a value or a failure, with the ordinals of the last object header
  and of the last expression header above it.
\<close>

fun isOutcome :: "'val line \<Rightarrow> bool" where
  "isOutcome (CompilationFailed err) = True"
| "isOutcome (ProgramFailed err) = True"
| "isOutcome (EvaluationFailed err) = True"
| "isOutcome (Result out) = True"
| "isOutcome other = False"

fun resultCells :: "nat \<Rightarrow> nat \<Rightarrow> 'val line list \<Rightarrow> (nat \<times> nat \<times> 'val line) list" where
  "resultCells obj ex [] = []"
| "resultCells obj ex (ObjectHeader n # rest) = resultCells n 0 rest"
| "resultCells obj ex (ExpressionHeader n expr # rest) = resultCells obj n rest"
| "resultCells obj ex (other # rest) =
     (if isOutcome other then (obj, ex, other) # resultCells obj ex rest
      else resultCells obj ex rest)"

text \<open>The rate lines and the content lines of a benchmark report.\<close>

fun isRate :: "'val line \<Rightarrow> bool" where
  "isRate (EvaluationsPerSecond count elapsed) = True"
| "isRate (OverallEvaluationsPerSecond count elapsed) = True"
| "isRate other = False"

fun isContent :: "'val line \<Rightarrow> bool" where
  "isContent (Content text) = True"
| "isContent other = False"

text \<open>The statistics lines of a report: everything the report phase prints.\<close>

fun isStatistic :: "'val line \<Rightarrow> bool" where
  "isStatistic (StatsHeader n) = True"
| "isStatistic (Content text) = True"
| "isStatistic (Evaluations count) = True"
| "isStatistic (TotalTime d) = True"
| "isStatistic (AverageTime d) = True"
| "isStatistic (EvaluationsPerSecond count elapsed) = True"
| "isStatistic SummaryBanner = True"
| "isStatistic (TotalDuration d) = True"
| "isStatistic (TotalEvaluations count) = True"
| "isStatistic (OverallEvaluationsPerSecond count elapsed) = True"
| "isStatistic other = False"

text \<open>\<^verbatim>\<open>strings.Join\<close>, the inverse of splitting.\<close>

fun Join :: "string list \<Rightarrow> string \<Rightarrow> string" where
  "Join [] sep = []"
| "Join [x] sep = x"
| "Join (x # y # rest) sep = x @ sep @ Join (y # rest) sep"

section \<open>Small instances\<close>

text \<open>
  A decoder given by the finite list of the results it will hand out, and the stream
  format in which every byte is one document.
\<close>

definition listYaml :: "(string \<Rightarrow> (error + 'doc) list) \<Rightarrow> ((error + 'doc) list, 'doc) yaml" where
  "listYaml parse =
     \<lparr>NewDecoder = parse,
      Decode = (\<lambda>decoder. case decoder of [] \<Rightarrow> (Inl EOF, []) | r # rest \<Rightarrow> (r, rest))\<rparr>"

definition byteDocs :: "string \<Rightarrow> (error + char) list" where
  "byteDocs data = map Inr data"

text \<open>
  An environment whose syntax trees and programs are the source text: \<^verbatim>\<open>bad\<close> does not
  compile, \<^verbatim>\<open>unbound\<close> compiles but gives no program.
\<close>

definition demoEnv :: "(string, string) env" where
  "demoEnv =
     \<lparr>Compile = (\<lambda>expr. (expr, if expr = ''bad''
                                 then Some (Issues (Some (Error ''syntax error'')))
                                 else None)),
      Program = (\<lambda>ast. if ast = ''unbound'' then Inl (Error ''no such overload'')
                        else Inr ast)\<rparr>"

text \<open>
  A run time whose world is the number of evaluations made so far; the clock shows one
  nanosecond for each of them. \<^verbatim>\<open>throw\<close> fails on the object \<^verbatim>\<open>2\<close>, \<^verbatim>\<open>cold\<close> fails
  during the first ten evaluations of a run; every other evaluation returns the object.
\<close>

definition demoRuntime :: "(string, char, char, nat) runtime" where
  "demoRuntime =
     \<lparr>Eval = (\<lambda>program act w.
         (if program = ''throw'' \<and> act ''object'' = Some CHR ''2'' then Inl (Error ''boom'')
          else if program = ''cold'' \<and> w < 10 then Inl (Error ''cold'')
          else case act ''object'' of
                 None \<Rightarrow> Inl (Error ''no such variable'')
               | Some object \<Rightarrow> Inr object,
          Suc w)),
      Now = (\<lambda>w. (int w, w))\<rparr>"

text \<open>A platform with four files; the params file \<^verbatim>\<open>none.yaml\<close> holds no document.\<close>

definition demoPlatform ::
  "((error + char) list, char, string, string, char, nat) platform" where
  "demoPlatform =
     \<lparr>ReadFile = (\<lambda>name.
         if name = ''objects.yaml'' then Inr ''123''
         else if name = ''rules.cel'' then Inr ''size(object) > 0 --- --- has(params.x)''
         else if name = ''params.yaml'' then Inr ''p''
         else if name = ''none.yaml'' then Inr []
         else Inl (Error ''no such file'')),
      YAML = listYaml byteDocs,
      NewEnv = Inr demoEnv,
      Runtime = demoRuntime\<rparr>"

section \<open>Parsing documents\<close>

text \<open>What the decoding loop returns begins with the documents it was given.\<close>

lemma decodeLoop_extends:
  fixes Y :: "('d, 'doc) yaml"
  assumes "decodeLoop Y decoder documents = Some r"
  shows "\<forall>docs. r = Inr docs \<longrightarrow> (\<exists>more. docs = documents @ more)"
proof (rule decodeLoop.raw_induct
    [where P = "\<lambda>Y decoder documents r. \<forall>docs. r = Inr docs \<longrightarrow> (\<exists>more. docs = documents @ more)",
     OF _ assms])
  fix self :: "('d, 'doc) yaml \<Rightarrow> 'd \<Rightarrow> 'doc list \<Rightarrow> (error + 'doc list) option"
    and Y decoder documents r
  assume IH: "\<And>Y decoder documents r. self Y decoder documents = Some r \<Longrightarrow>
      \<forall>docs. r = Inr docs \<longrightarrow> (\<exists>more. docs = documents @ more)"
    and step: "(case Decode Y decoder of
        (Inl err, decoder') \<Rightarrow> if err = EOF then Some (Inr documents) else Some (Inl err)
      | (Inr doc, decoder') \<Rightarrow> self Y decoder' (documents @ [doc])) = Some r"
  obtain res decoder' where dec: "Decode Y decoder = (res, decoder')"
    by (cases "Decode Y decoder")
  show "\<forall>docs. r = Inr docs \<longrightarrow> (\<exists>more. docs = documents @ more)"
  proof (cases res)
    case (Inl err)
    with dec step show ?thesis
      by (auto split: if_splits)
  next
    case (Inr doc)
    with dec step have "self Y decoder' (documents @ [doc]) = Some r"
      by simp
    then have "\<forall>docs. r = Inr docs \<longrightarrow> (\<exists>more. docs = (documents @ [doc]) @ more)"
      by (rule IH)
    then show ?thesis by auto
  qed
qed

text \<open>
  The loop returns as soon as the decoder stops handing out documents: if after \<open>n\<close>
  documents the next result is an error or the end of the stream, the loop returns,
  with the \<open>n\<close> documents in the second case.
\<close>

lemma decodeLoop_returns:
  assumes "fst (Decode Y (((\<lambda>d. snd (Decode Y d)) ^^ n) decoder)) = Inl err"
    and "\<forall>k < n. \<exists>doc. fst (Decode Y (((\<lambda>d. snd (Decode Y d)) ^^ k) decoder)) = Inr doc"
  shows "\<exists>r. decodeLoop Y decoder documents = Some r"
  using assms
proof (induction n arbitrary: decoder documents)
  case 0
  obtain res decoder' where dec: "Decode Y decoder = (res, decoder')"
    by (cases "Decode Y decoder")
  with "0.prems"(1) have "res = Inl err" by simp
  with dec show ?case
    by (subst decodeLoop.simps) simp
next
  case (Suc n)
  obtain res decoder' where dec: "Decode Y decoder = (res, decoder')"
    by (cases "Decode Y decoder")
  from Suc.prems(2) have "\<exists>doc. fst (Decode Y (((\<lambda>d. snd (Decode Y d)) ^^ 0) decoder)) = Inr doc"
    by blast
  with dec obtain doc where res: "res = Inr doc" by auto
  have "\<exists>r. decodeLoop Y decoder' (documents @ [doc]) = Some r"
  proof (rule Suc.IH)
    from Suc.prems(1) dec
    show "fst (Decode Y (((\<lambda>d. snd (Decode Y d)) ^^ n) decoder')) = Inl err"
      by (simp add: funpow_Suc_right del: funpow.simps)
    show "\<forall>k<n. \<exists>doc. fst (Decode Y (((\<lambda>d. snd (Decode Y d)) ^^ k) decoder')) = Inr doc"
    proof (intro allI impI)
      fix k assume "k < n"
      then have "Suc k < Suc n" by simp
      with Suc.prems(2)
      have "\<exists>doc. fst (Decode Y (((\<lambda>d. snd (Decode Y d)) ^^ Suc k) decoder)) = Inr doc"
        by blast
      with dec show "\<exists>doc. fst (Decode Y (((\<lambda>d. snd (Decode Y d)) ^^ k) decoder')) = Inr doc"
        by (simp add: funpow_Suc_right del: funpow.simps)
    qed
  qed
  with dec res show ?case
    by (subst decodeLoop.simps) simp
qed

text \<open>On a decoder given by a list of documents the loop returns them all.\<close>

lemma decodeLoop_listYaml:
  "decodeLoop (listYaml parse) (map Inr docs) documents = Some (Inr (documents @ docs))"
proof (induction docs arbitrary: documents)
  case Nil
  show ?case by (subst decodeLoop.simps) (simp add: listYaml_def)
next
  case (Cons doc docs)
  have "decodeLoop (listYaml parse) (map Inr (doc # docs)) documents
        = decodeLoop (listYaml parse) (map Inr docs) (documents @ [doc])"
    by (subst decodeLoop.simps) (simp add: listYaml_def)
  with Cons.IH show ?case by simp
qed

lemma parseYAMLDocuments_byteDocs:
  "parseYAMLDocuments (listYaml byteDocs) data = Some (Inr data)"
  using decodeLoop_listYaml [of byteDocs data "[]"]
  by (simp add: parseYAMLDocuments_def byteDocs_def listYaml_def)

text \<open>
  Claim C8. Whenever parsing a stream as one document and parsing it as a sequence of
  documents both succeed, the sequence is not empty and its element at index 0 is the
  single document.
\<close>

theorem single_document_is_first_of_many:
  assumes multi: "parseYAMLDocuments Y data = Some (Inr docs)"
    and single: "parseSingleYAMLDocument Y data = Inr doc"
  shows "docs \<noteq> [] \<and> docs ! 0 = doc"
proof -
  obtain r decoder' where first: "Decode Y (NewDecoder Y data) = (r, decoder')"
    by (cases "Decode Y (NewDecoder Y data)")
  with single have r: "r = Inr doc"
    by (simp add: parseSingleYAMLDocument_def split: sum.splits)
  from multi first r have "decodeLoop Y decoder' [doc] = Some (Inr docs)"
    by (simp add: parseYAMLDocuments_def decodeLoop.simps [of Y "NewDecoder Y data"])
  then have "\<exists>more. docs = [doc] @ more"
    using decodeLoop_extends [of Y decoder' "[doc]" "Inr docs"] by simp
  then show ?thesis by auto
qed

text \<open>The same on a stream of three documents.\<close>

theorem single_document_is_first_of_many_witness:
  "parseYAMLDocuments (listYaml byteDocs) ''abc'' = Some (Inr ''abc'')
   \<and> parseSingleYAMLDocument (listYaml byteDocs) ''abc'' = Inr (CHR ''a'')
   \<and> ''abc'' \<noteq> [] \<and> ''abc'' ! 0 = CHR ''a''"
proof -
  have multi: "parseYAMLDocuments (listYaml byteDocs) ''abc'' = Some (Inr ''abc'')"
    by (rule parseYAMLDocuments_byteDocs)
  have single: "parseSingleYAMLDocument (listYaml byteDocs) ''abc'' = Inr (CHR ''a'')"
    by (simp add: parseSingleYAMLDocument_def byteDocs_def listYaml_def)
  from single_document_is_first_of_many [OF multi single] multi single
  show ?thesis by simp
qed

text \<open>
  Claim C10. When the first \<^verbatim>\<open>Decode\<close> on the params data reports the end of the stream
  (a stream of zero documents), \<^verbatim>\<open>parseSingleYAMLDocument\<close> returns that end-of-stream
  condition as its error, and \<^verbatim>\<open>main\<close>, once the arguments are there and the
  object, expression and params files are loaded, ends with the fatal message for the
  params file and status 1, in either mode.
\<close>

theorem empty_params_file_is_fatal:
  assumes eof: "fst (Decode (YAML P) (NewDecoder (YAML P) paramsData)) = Inl EOF"
  shows "parseSingleYAMLDocument (YAML P) paramsData = Inl EOF \<and>
    (\<forall>args benchmarkMode filteredArgs objectData objects expressionData w.
       filterArgs args = (benchmarkMode, filteredArgs) \<and> 3 \<le> length filteredArgs
       \<and> loadFile P (filteredArgs ! 0) = Inr objectData
       \<and> parseYAMLDocuments (YAML P) objectData = Some (Inr objects)
       \<and> loadFile P (filteredArgs ! 1) = Inr expressionData
       \<and> loadFile P (filteredArgs ! 2) = Inr paramsData
       \<longrightarrow> main P args w = Some (([Fatal ''Failed to parse params YAML: '' EOF], 1), w))"
proof -
  from eof have single: "parseSingleYAMLDocument (YAML P) paramsData = Inl EOF"
    by (simp add: parseSingleYAMLDocument_def)
  then show ?thesis
    by (simp add: main_def)
qed

text \<open>On the small platform, with the params file that holds no document, in interactive
  mode and in benchmark mode.\<close>

theorem empty_params_file_is_fatal_witness:
  "fst (Decode (YAML demoPlatform) (NewDecoder (YAML demoPlatform) [])) = Inl EOF
   \<and> parseSingleYAMLDocument (YAML demoPlatform) [] = Inl EOF
   \<and> main demoPlatform [''objects.yaml'', ''rules.cel'', ''none.yaml''] 0
       = Some (([Fatal ''Failed to parse params YAML: '' EOF], 1), 0)
   \<and> main demoPlatform [''--benchmark'', ''objects.yaml'', ''rules.cel'', ''none.yaml''] 0
       = Some (([Fatal ''Failed to parse params YAML: '' EOF], 1), 0)"
proof -
  have eof: "fst (Decode (YAML demoPlatform) (NewDecoder (YAML demoPlatform) [])) = Inl EOF"
    by (simp add: demoPlatform_def listYaml_def byteDocs_def)
  have objects: "parseYAMLDocuments (YAML demoPlatform) ''123'' = Some (Inr ''123'')"
    by (simp add: demoPlatform_def parseYAMLDocuments_byteDocs)
  have files: "loadFile demoPlatform ''objects.yaml'' = Inr ''123''"
    "loadFile demoPlatform ''rules.cel'' = Inr ''size(object) > 0 --- --- has(params.x)''"
    "loadFile demoPlatform ''none.yaml'' = Inr []"
    by (simp_all add: loadFile_def demoPlatform_def)
  note fatal = empty_params_file_is_fatal [OF eof]
  note run = fatal [THEN conjunct2, rule_format]
  have interactive:
    "main demoPlatform [''objects.yaml'', ''rules.cel'', ''none.yaml''] 0
       = Some (([Fatal ''Failed to parse params YAML: '' EOF], 1), 0)"
    by (rule run [of _ False "[''objects.yaml'', ''rules.cel'', ''none.yaml'']" "''123''" "''123''"
          "''size(object) > 0 --- --- has(params.x)''"])
       (simp add: filterArgs_def files objects)
  have benchmark:
    "main demoPlatform [''--benchmark'', ''objects.yaml'', ''rules.cel'', ''none.yaml''] 0
       = Some (([Fatal ''Failed to parse params YAML: '' EOF], 1), 0)"
    by (rule run [of _ True "[''objects.yaml'', ''rules.cel'', ''none.yaml'']" "''123''" "''123''"
          "''size(object) > 0 --- --- has(params.x)''"])
       (simp add: filterArgs_def files objects)
  from eof fatal interactive benchmark show ?thesis by blast
qed

section \<open>Batch compilation\<close>

text \<open>The loop passes over the expressions that are empty.\<close>

lemma compileLoop_filter:
  "compileLoop env programs expressions
     = compileLoop env programs (filter (\<lambda>e. e \<noteq> []) expressions)"
  by (induction expressions arbitrary: programs)
     (simp_all split: prod.splits option.splits sum.splits)

text \<open>Over expressions that all compile and bind, the loop appends one program for each
  expression that is not empty, and goes on.\<close>

lemma compileLoop_append:
  assumes "\<forall>e \<in> set before. e \<noteq> [] \<longrightarrow>
      issuesErr (snd (Compile env e)) = None \<and> (\<exists>program. Program env (fst (Compile env e)) = Inr program)"
  shows "\<exists>new. length new = length (filter (\<lambda>e. e \<noteq> []) before)
      \<and> compileLoop env programs (before @ rest) = compileLoop env (programs @ new) rest"
  using assms
proof (induction before arbitrary: programs)
  case Nil
  show ?case by simp
next
  case (Cons e before)
  from Cons.prems have tail: "\<forall>e \<in> set before. e \<noteq> [] \<longrightarrow>
      issuesErr (snd (Compile env e)) = None \<and> (\<exists>program. Program env (fst (Compile env e)) = Inr program)"
    by simp
  show ?case
  proof (cases "e = []")
    case True
    with Cons.IH [OF tail, of programs] show ?thesis by simp
  next
    case False
    with Cons.prems obtain program where
      compiled: "issuesErr (snd (Compile env e)) = None"
      and bound: "Program env (fst (Compile env e)) = Inr program"
      by auto
    from Cons.IH [OF tail, of "programs @ [program]"] obtain new where
      new: "length new = length (filter (\<lambda>e. e \<noteq> []) before)"
      "compileLoop env (programs @ [program]) (before @ rest)
         = compileLoop env ((programs @ [program]) @ new) rest"
      by blast
    from False compiled bound new(2)
    have "compileLoop env programs ((e # before) @ rest)
            = compileLoop env (programs @ (program # new)) rest"
      by (cases "Compile env e") simp
    moreover from False new(1)
    have "length (program # new) = length (filter (\<lambda>e. e \<noteq> []) (e # before))"
      by simp
    ultimately show ?thesis by blast
  qed
qed

text \<open>When the batch succeeds, the programs are those of the expressions that are not
  empty, in order.\<close>

lemma compileLoop_programs:
  "compileLoop env programs expressions = Inr result \<Longrightarrow>
     \<exists>new. result = programs @ new
       \<and> list_all2 (\<lambda>program e. Program env (fst (Compile env e)) = Inr program)
            new (filter (\<lambda>e. e \<noteq> []) expressions)"
proof (induction expressions arbitrary: programs)
  case Nil
  then show ?case by simp
next
  case (Cons e expressions)
  show ?case
  proof (cases "e = []")
    case True
    with Cons show ?thesis by simp
  next
    case False
    with Cons.prems obtain program where
      bound: "Program env (fst (Compile env e)) = Inr program"
      and rest: "compileLoop env (programs @ [program]) expressions = Inr result"
      by (auto split: prod.splits option.splits sum.splits)
    from Cons.IH [OF rest] obtain new where
      "result = (programs @ [program]) @ new"
      "list_all2 (\<lambda>program e. Program env (fst (Compile env e)) = Inr program)
         new (filter (\<lambda>e. e \<noteq> []) expressions)"
      by blast
    with False bound have "result = programs @ (program # new)
      \<and> list_all2 (\<lambda>program e. Program env (fst (Compile env e)) = Inr program)
          (program # new) (filter (\<lambda>e. e \<noteq> []) (e # expressions))"
      by simp
    then show ?thesis by blast
  qed
qed

lemma compileExpressions_programs:
  assumes "compileExpressions env expressions = Inr programs"
  shows "list_all2 (\<lambda>program e. Program env (fst (Compile env e)) = Inr program)
           programs (filter (\<lambda>e. e \<noteq> []) expressions)"
  using compileLoop_programs [of env "[]" expressions programs] assms
  by (simp add: compileExpressions_def)

text \<open>
  Claim C2, as the code has it. The batch stops at the first expression that is not
  empty and fails to compile or to give a program: whatever follows it, the result is
  no program at all but an error whose text is \<^verbatim>\<open>compilation failed: \<close> or
  \<^verbatim>\<open>failed to create program: \<close> followed by the text of the underlying cause. The error
  says nothing of the position of the expression.
\<close>

theorem compileExpressions_aborts_with_cause:
  assumes ok: "\<forall>e \<in> set before. e \<noteq> [] \<longrightarrow>
      issuesErr (snd (Compile env e)) = None \<and> (\<exists>program. Program env (fst (Compile env e)) = Inr program)"
    and nonempty: "expr \<noteq> []"
  shows "(issuesErr (snd (Compile env expr)) = Some cause \<longrightarrow>
            compileExpressions env (before @ expr # after)
              = Inl (Error (''compilation failed: '' @ errorText cause)))
       \<and> (issuesErr (snd (Compile env expr)) = None
            \<and> Program env (fst (Compile env expr)) = Inl cause \<longrightarrow>
            compileExpressions env (before @ expr # after)
              = Inl (Error (''failed to create program: '' @ errorText cause)))"
proof -
  from compileLoop_append [OF ok, of "[]" "expr # after"] obtain new where
    "compileLoop env [] (before @ expr # after) = compileLoop env ([] @ new) (expr # after)"
    by blast
  with nonempty show ?thesis
    by (cases "Compile env expr") (simp add: compileExpressions_def Errorf_def)
qed

text \<open>After an expression that compiles and an empty one: an expression that does not
  compile, and one that compiles but gives no program.\<close>

theorem compileExpressions_aborts_with_cause_witness:
  "compileExpressions demoEnv [''ok'', '''', ''bad'', ''unbound'']
     = Inl (Error ''compilation failed: syntax error'')
   \<and> compileExpressions demoEnv [''ok'', '''', ''unbound'', ''bad'']
     = Inl (Error ''failed to create program: no such overload'')"
proof -
  have first: "compileExpressions demoEnv ([''ok'', ''''] @ ''bad'' # [''unbound''])
     = Inl (Error (''compilation failed: '' @ errorText (Error ''syntax error'')))"
    using compileExpressions_aborts_with_cause
      [of "[''ok'', '''']" demoEnv "''bad''" "Error ''syntax error''" "[''unbound'']"]
    by (simp add: demoEnv_def issuesErr_def)
  have second: "compileExpressions demoEnv ([''ok'', ''''] @ ''unbound'' # [''bad''])
     = Inl (Error (''failed to create program: '' @ errorText (Error ''no such overload'')))"
    using compileExpressions_aborts_with_cause
      [of "[''ok'', '''']" demoEnv "''unbound''" "Error ''no such overload''" "[''bad'']"]
    by (simp add: demoEnv_def issuesErr_def)
  from first second show ?thesis by simp
qed

text \<open>
  Claim C2, as the specification has it, fails: the error carries no index. A batch
  that fails at its first expression and a batch that fails at its third return the
  same error.
\<close>

theorem compileExpressions_error_without_index:
  "compileExpressions demoEnv [''bad''] = Inl (Error ''compilation failed: syntax error'')
   \<and> compileExpressions demoEnv [''ok'', ''fine'', ''bad'']
       = Inl (Error ''compilation failed: syntax error'')
   \<and> compileExpressions demoEnv [''bad''] = compileExpressions demoEnv [''ok'', ''fine'', ''bad'']"
  by (simp add: compileExpressions_def demoEnv_def issuesErr_def Errorf_def)

section \<open>Interactive mode\<close>

text \<open>Positions in a list and in its tail.\<close>

lemma filter_upt_Cons:
  "filter (\<lambda>j. (x # xs) ! j \<noteq> []) [0..<length (x # xs)]
     = (if x \<noteq> [] then [0] else []) @ map Suc (filter (\<lambda>j. xs ! j \<noteq> []) [0..<length xs])"
proof -
  have "[0..<length (x # xs)] = 0 # map Suc [0..<length xs]"
    by (simp add: upt_conv_Cons map_Suc_upt del: upt_Suc)
  then show ?thesis
    by (simp add: filter_map o_def del: upt_Suc)
qed

lemma upt_Suc_shift: "[0..<Suc n] = 0 # map Suc [0..<n]"
  by (simp add: upt_conv_Cons map_Suc_upt del: upt_Suc)

lemma length_filter_positions:
  "length (filter (\<lambda>j. xs ! j \<noteq> []) [0..<length xs]) = length (filter (\<lambda>e. e \<noteq> []) xs)"
proof (induction xs)
  case Nil
  show ?case by simp
next
  case (Cons x xs)
  then show ?case
    by (simp only: filter_upt_Cons) simp
qed

text \<open>Every cell prints a value or one of the three failures.\<close>

lemma evalCell_isOutcome: "isOutcome (fst (evalCell env R object params expr w))"
  by (simp add: evalCell_def split: prod.splits option.splits sum.splits)

text \<open>The cells of one object: one for each expression that is not empty, in order,
  whatever the outcome of the cells before.\<close>

lemma expressionLoop_cells:
  assumes tail: "\<And>obj ex. resultCells obj ex tail = resultCells 0 0 tail"
  shows "map (\<lambda>(obj, ex, outcome). (obj, ex))
           (resultCells obj ex (fst (expressionLoop env R object params k exprs w) @ tail))
         = map (\<lambda>j. (obj, k + j + 1)) (filter (\<lambda>j. exprs ! j \<noteq> []) [0..<length exprs])
           @ map (\<lambda>(obj, ex, outcome). (obj, ex)) (resultCells 0 0 tail)"
proof (induction exprs arbitrary: k w ex)
  case Nil
  show ?case by (simp add: tail [of obj ex])
next
  case (Cons e exprs)
  show ?case
  proof (cases "e = []")
    case True
    have "map (\<lambda>(obj, ex, outcome). (obj, ex))
           (resultCells obj ex (fst (expressionLoop env R object params (k + 1) exprs w) @ tail))
         = map (\<lambda>j. (obj, (k + 1) + j + 1)) (filter (\<lambda>j. exprs ! j \<noteq> []) [0..<length exprs])
           @ map (\<lambda>(obj, ex, outcome). (obj, ex)) (resultCells 0 0 tail)"
      by (rule Cons.IH)
    with True show ?thesis
      by (simp only: filter_upt_Cons) (simp add: o_def)
  next
    case False
    obtain outcome w' where cell: "evalCell env R object params e w = (outcome, w')"
      by (cases "evalCell env R object params e w")
    obtain lines w'' where
      rest: "expressionLoop env R object params (k + 1) exprs w' = (lines, w'')"
      by (cases "expressionLoop env R object params (k + 1) exprs w'")
    from cell have out: "isOutcome outcome"
      using evalCell_isOutcome [of env R object params e w] by simp
    have "map (\<lambda>(obj, ex, outcome). (obj, ex))
           (resultCells obj (k + 1) (fst (expressionLoop env R object params (k + 1) exprs w') @ tail))
         = map (\<lambda>j. (obj, (k + 1) + j + 1)) (filter (\<lambda>j. exprs ! j \<noteq> []) [0..<length exprs])
           @ map (\<lambda>(obj, ex, outcome). (obj, ex)) (resultCells 0 0 tail)"
      by (rule Cons.IH)
    with rest have IH: "map (\<lambda>(obj, ex, outcome). (obj, ex)) (resultCells obj (k + 1) (lines @ tail))
         = map (\<lambda>j. (obj, (k + 1) + j + 1)) (filter (\<lambda>j. exprs ! j \<noteq> []) [0..<length exprs])
           @ map (\<lambda>(obj, ex, outcome). (obj, ex)) (resultCells 0 0 tail)"
      by simp
    from out have "resultCells obj (k + 1) (outcome # lines @ tail)
        = (obj, k + 1, outcome) # resultCells obj (k + 1) (lines @ tail)"
      by (cases outcome) simp_all
    with False cell rest IH show ?thesis
      by (simp only: filter_upt_Cons) (simp add: o_def)
  qed
qed

text \<open>What the outer loop prints is empty or begins with an object header, so a reader
  needs no memory of what came before it.\<close>

lemma objectLoop_fresh:
  "resultCells obj ex (fst (objectLoop env R params exprs k objects w))
     = resultCells 0 0 (fst (objectLoop env R params exprs k objects w))"
  by (cases objects) (simp_all split: prod.splits)

lemma objectLoop_cells:
  "map (\<lambda>(obj, ex, outcome). (obj, ex))
     (resultCells obj ex (fst (objectLoop env R params exprs k objects w)))
   = concat (map (\<lambda>i. map (\<lambda>j. (k + i + 1, j + 1))
                          (filter (\<lambda>j. exprs ! j \<noteq> []) [0..<length exprs]))
                [0..<length objects])"
proof (induction objects arbitrary: k w obj ex)
  case Nil
  show ?case by simp
next
  case (Cons object objects)
  obtain cells w' where inner: "expressionLoop env R object params 0 exprs w = (cells, w')"
    by (cases "expressionLoop env R object params 0 exprs w")
  obtain lines w'' where outer: "objectLoop env R params exprs (k + 1) objects w' = (lines, w'')"
    by (cases "objectLoop env R params exprs (k + 1) objects w'")
  have fresh: "\<And>obj ex. resultCells obj ex lines = resultCells 0 0 lines"
    using objectLoop_fresh [of _ _ env R params exprs "k + 1" objects w'] outer by simp
  have "map (\<lambda>(obj, ex, outcome). (obj, ex))
          (resultCells (k + 1) 0 (fst (expressionLoop env R object params 0 exprs w) @ lines))
        = map (\<lambda>j. (k + 1, 0 + j + 1)) (filter (\<lambda>j. exprs ! j \<noteq> []) [0..<length exprs])
          @ map (\<lambda>(obj, ex, outcome). (obj, ex)) (resultCells 0 0 lines)"
    by (rule expressionLoop_cells [OF fresh])
  moreover have "map (\<lambda>(obj, ex, outcome). (obj, ex))
          (resultCells 0 0 (fst (objectLoop env R params exprs (k + 1) objects w')))
        = concat (map (\<lambda>i. map (\<lambda>j. ((k + 1) + i + 1, j + 1))
                          (filter (\<lambda>j. exprs ! j \<noteq> []) [0..<length exprs]))
                [0..<length objects])"
    by (rule Cons.IH)
  ultimately show ?case
    using inner outer
    by (simp add: upt_Suc_shift [of "length objects"] o_def del: upt_Suc)
qed

text \<open>Every cell that a reader finds comes from one object and one expression that is
  not empty: it is what \<^const>\<open>evalCell\<close> printed for them, in the world of that
  moment.\<close>

lemma expressionLoop_origin:
  assumes tail: "\<And>obj ex. resultCells obj ex tail = resultCells 0 0 tail"
    and cell: "(obj, ex, outcome)
        \<in> set (resultCells obj0 ex0 (fst (expressionLoop env R object params k exprs w) @ tail))"
  shows "(obj = obj0 \<and> (\<exists>j < length exprs. ex = k + j + 1 \<and> exprs ! j \<noteq> []
            \<and> (\<exists>w0. outcome = fst (evalCell env R object params (exprs ! j) w0))))
         \<or> (obj, ex, outcome) \<in> set (resultCells 0 0 tail)"
  using cell
proof (induction exprs arbitrary: k w ex0)
  case Nil
  then show ?case by (simp add: tail [of obj0 ex0])
next
  case (Cons e exprs)
  show ?case
  proof (cases "e = []")
    case True
    with Cons.prems have "(obj, ex, outcome)
        \<in> set (resultCells obj0 ex0 (fst (expressionLoop env R object params (k + 1) exprs w) @ tail))"
      by simp
    from Cons.IH [OF this] show ?thesis
      by auto
  next
    case False
    obtain out w' where cell: "evalCell env R object params e w = (out, w')"
      by (cases "evalCell env R object params e w")
    obtain lines w'' where
      rest: "expressionLoop env R object params (k + 1) exprs w' = (lines, w'')"
      by (cases "expressionLoop env R object params (k + 1) exprs w'")
    from cell have "isOutcome out"
      using evalCell_isOutcome [of env R object params e w] by simp
    then have "resultCells obj0 (k + 1) (out # lines @ tail)
        = (obj0, k + 1, out) # resultCells obj0 (k + 1) (lines @ tail)"
      by (cases out) simp_all
    with False cell rest Cons.prems
    have "(obj, ex, outcome) = (obj0, k + 1, out)
        \<or> (obj, ex, outcome) \<in> set (resultCells obj0 (k + 1)
              (fst (expressionLoop env R object params (k + 1) exprs w') @ tail))"
      by simp
    then show ?thesis
    proof
      assume "(obj, ex, outcome) = (obj0, k + 1, out)"
      with cell False have "obj = obj0 \<and> ex = k + 0 + 1 \<and> (e # exprs) ! 0 \<noteq> []
          \<and> outcome = fst (evalCell env R object params ((e # exprs) ! 0) w)"
        by simp
      then show ?thesis by blast
    next
      assume "(obj, ex, outcome) \<in> set (resultCells obj0 (k + 1)
              (fst (expressionLoop env R object params (k + 1) exprs w') @ tail))"
      from Cons.IH [OF this] show ?thesis
      proof
        assume "obj = obj0 \<and> (\<exists>j<length exprs. ex = k + 1 + j + 1 \<and> exprs ! j \<noteq> []
            \<and> (\<exists>w0. outcome = fst (evalCell env R object params (exprs ! j) w0)))"
        then obtain j w0 where "obj = obj0" "j < length exprs" "ex = k + 1 + j + 1"
          "exprs ! j \<noteq> []" "outcome = fst (evalCell env R object params (exprs ! j) w0)"
          by blast
        then have "obj = obj0 \<and> Suc j < length (e # exprs) \<and> ex = k + Suc j + 1
            \<and> (e # exprs) ! Suc j \<noteq> []
            \<and> outcome = fst (evalCell env R object params ((e # exprs) ! Suc j) w0)"
          by simp
        then show ?thesis by blast
      next
        assume "(obj, ex, outcome) \<in> set (resultCells 0 0 tail)"
        then show ?thesis by simp
      qed
    qed
  qed
qed

lemma objectLoop_origin:
  assumes "(obj, ex, outcome)
      \<in> set (resultCells obj0 ex0 (fst (objectLoop env R params exprs k objects w)))"
  shows "\<exists>i < length objects. obj = k + i + 1
      \<and> (\<exists>j < length exprs. ex = j + 1 \<and> exprs ! j \<noteq> []
            \<and> (\<exists>w0. outcome = fst (evalCell env R (objects ! i) params (exprs ! j) w0)))"
  using assms
proof (induction objects arbitrary: k w obj0 ex0)
  case Nil
  then show ?case by simp
next
  case (Cons object objects)
  obtain cells w' where inner: "expressionLoop env R object params 0 exprs w = (cells, w')"
    by (cases "expressionLoop env R object params 0 exprs w")
  obtain lines w'' where outer: "objectLoop env R params exprs (k + 1) objects w' = (lines, w'')"
    by (cases "objectLoop env R params exprs (k + 1) objects w'")
  have fresh: "\<And>obj ex. resultCells obj ex lines = resultCells 0 0 lines"
    using objectLoop_fresh [of _ _ env R params exprs "k + 1" objects w'] outer by simp
  from Cons.prems inner outer
  have "(obj, ex, outcome)
      \<in> set (resultCells (k + 1) 0 (fst (expressionLoop env R object params 0 exprs w) @ lines))"
    by simp
  from expressionLoop_origin [OF fresh this]
  show ?case
  proof
    assume "obj = k + 1 \<and> (\<exists>j<length exprs. ex = 0 + j + 1 \<and> exprs ! j \<noteq> []
        \<and> (\<exists>w0. outcome = fst (evalCell env R object params (exprs ! j) w0)))"
    then have "0 < length (object # objects) \<and> obj = k + 0 + 1
        \<and> (\<exists>j<length exprs. ex = j + 1 \<and> exprs ! j \<noteq> []
        \<and> (\<exists>w0. outcome = fst (evalCell env R ((object # objects) ! 0) params (exprs ! j) w0)))"
      by simp
    then show ?thesis by blast
  next
    assume "(obj, ex, outcome) \<in> set (resultCells 0 0 lines)"
    with outer have "(obj, ex, outcome)
        \<in> set (resultCells 0 0 (fst (objectLoop env R params exprs (k + 1) objects w')))"
      by simp
    from Cons.IH [OF this] obtain i where "i < length objects" "obj = k + 1 + i + 1"
      "\<exists>j < length exprs. ex = j + 1 \<and> exprs ! j \<noteq> []
            \<and> (\<exists>w0. outcome = fst (evalCell env R (objects ! i) params (exprs ! j) w0))"
      by blast
    then have "Suc i < length (object # objects) \<and> obj = k + Suc i + 1
      \<and> (\<exists>j < length exprs. ex = j + 1 \<and> exprs ! j \<noteq> []
            \<and> (\<exists>w0. outcome = fst (evalCell env R ((object # objects) ! Suc i) params (exprs ! j) w0)))"
      by simp
    then show ?thesis by blast
  qed
qed

text \<open>
  Claim C3. For \<open>K\<close> objects and expressions of which \<open>M\<close> are not empty, whatever
  compilation and evaluation do, the output of interactive mode holds \<open>K \<times> M\<close> result
  cells, each a value or a reported failure; read with the headers above them they
  are the cells (object ordinal, expression ordinal), objects ascending and, for each
  object, the ordinals of the expressions that are not empty ascending. The cell of
  an object and an expression is what compiling and evaluating that expression on
  that object printed, so every cell was run, also after a cell that failed.
\<close>

theorem interactive_matrix:
  "map (\<lambda>(obj, ex, outcome). (obj, ex))
     (resultCells 0 0 (fst (interactive env R objects params expressions w)))
   = concat (map (\<lambda>i. map (\<lambda>j. (i + 1, j + 1))
                          (filter (\<lambda>j. expressions ! j \<noteq> []) [0..<length expressions]))
                [0..<length objects])
   \<and> length (resultCells 0 0 (fst (interactive env R objects params expressions w)))
       = length objects * length (filter (\<lambda>e. e \<noteq> []) expressions)
   \<and> (\<forall>(obj, ex, outcome) \<in> set (resultCells 0 0
           (fst (interactive env R objects params expressions w))).
         \<exists>w0. outcome
           = fst (evalCell env R (objects ! (obj - 1)) params (expressions ! (ex - 1)) w0))"
proof -
  have tags: "map (\<lambda>(obj, ex, outcome). (obj, ex))
     (resultCells 0 0 (fst (interactive env R objects params expressions w)))
   = concat (map (\<lambda>i. map (\<lambda>j. (i + 1, j + 1))
                          (filter (\<lambda>j. expressions ! j \<noteq> []) [0..<length expressions]))
                [0..<length objects])"
    using objectLoop_cells [of 0 0 env R params expressions 0 objects w]
    by (simp add: interactive_def)
  have "length (resultCells 0 0 (fst (interactive env R objects params expressions w)))
      = length (map (\<lambda>(obj, ex, outcome). (obj, ex))
          (resultCells 0 0 (fst (interactive env R objects params expressions w))))"
    by simp
  also have "\<dots> = length objects
      * length (filter (\<lambda>j. expressions ! j \<noteq> []) [0..<length expressions])"
    by (simp only: tags) (simp add: length_concat o_def sum_list_triv del: upt_Suc)
  finally have count: "length (resultCells 0 0 (fst (interactive env R objects params expressions w)))
      = length objects * length (filter (\<lambda>e. e \<noteq> []) expressions)"
    by (simp only: length_filter_positions)
  have origin: "\<forall>(obj, ex, outcome) \<in> set (resultCells 0 0
           (fst (interactive env R objects params expressions w))).
         \<exists>w0. outcome
           = fst (evalCell env R (objects ! (obj - 1)) params (expressions ! (ex - 1)) w0)"
  proof (clarify)
    fix obj ex outcome
    assume "(obj, ex, outcome) \<in> set (resultCells 0 0
           (fst (interactive env R objects params expressions w)))"
    then have "(obj, ex, outcome) \<in> set (resultCells 0 0
           (fst (objectLoop env R params expressions 0 objects w)))"
      by (simp add: interactive_def)
    from objectLoop_origin [OF this] obtain i j w0 where
      "obj = 0 + i + 1" "ex = j + 1"
      "outcome = fst (evalCell env R (objects ! i) params (expressions ! j) w0)"
      by blast
    then have "outcome
        = fst (evalCell env R (objects ! (obj - 1)) params (expressions ! (ex - 1)) w0)"
      by simp
    then show "\<exists>w0. outcome
        = fst (evalCell env R (objects ! (obj - 1)) params (expressions ! (ex - 1)) w0)" ..
  qed
  from tags count origin show ?thesis by blast
qed

text \<open>Two objects and four expressions: one empty, one that does not compile, one that
  fails on the second object.\<close>

theorem interactive_matrix_witness:
  "fst (interactive demoEnv demoRuntime ''12'' (CHR ''p'') [''ok'', '''', ''bad'', ''throw''] 0)
     = [ObjectHeader 1,
        ExpressionHeader 1 ''ok'', Result (CHR ''1''),
        ExpressionHeader 3 ''bad'', CompilationFailed (Error ''syntax error''),
        ExpressionHeader 4 ''throw'', Result (CHR ''1''),
        ObjectHeader 2,
        ExpressionHeader 1 ''ok'', Result (CHR ''2''),
        ExpressionHeader 3 ''bad'', CompilationFailed (Error ''syntax error''),
        ExpressionHeader 4 ''throw'', EvaluationFailed (Error ''boom'')]
   \<and> map (\<lambda>(obj, ex, outcome). (obj, ex))
       (resultCells 0 0
         (fst (interactive demoEnv demoRuntime ''12'' (CHR ''p'') [''ok'', '''', ''bad'', ''throw''] 0)))
     = [(1, 1), (1, 3), (1, 4), (2, 1), (2, 3), (2, 4)]
   \<and> length (resultCells 0 0
         (fst (interactive demoEnv demoRuntime ''12'' (CHR ''p'') [''ok'', '''', ''bad'', ''throw''] 0)))
     = 2 * 3"
proof -
  have out: "fst (interactive demoEnv demoRuntime ''12'' (CHR ''p'') [''ok'', '''', ''bad'', ''throw''] 0)
     = [ObjectHeader 1,
        ExpressionHeader 1 ''ok'', Result (CHR ''1''),
        ExpressionHeader 3 ''bad'', CompilationFailed (Error ''syntax error''),
        ExpressionHeader 4 ''throw'', Result (CHR ''1''),
        ObjectHeader 2,
        ExpressionHeader 1 ''ok'', Result (CHR ''2''),
        ExpressionHeader 3 ''bad'', CompilationFailed (Error ''syntax error''),
        ExpressionHeader 4 ''throw'', EvaluationFailed (Error ''boom'')]"
    by (simp add: interactive_def evalCell_def demoEnv_def demoRuntime_def issuesErr_def
        activation_def)
  note matrix = interactive_matrix [of demoEnv demoRuntime "''12''" "CHR ''p''"
      "[''ok'', '''', ''bad'', ''throw'']" 0]
  from matrix have "map (\<lambda>(obj, ex, outcome). (obj, ex))
       (resultCells 0 0
         (fst (interactive demoEnv demoRuntime ''12'' (CHR ''p'') [''ok'', '''', ''bad'', ''throw''] 0)))
     = concat (map (\<lambda>i. map (\<lambda>j. (i + 1, j + 1))
          (filter (\<lambda>j. [''ok'', '''', ''bad'', ''throw''] ! j \<noteq> [])
             [0..<length [''ok'', '''', ''bad'', ''throw'']]))
        [0..<length ''12''])"
    by (elim conjE)
  then have tags: "map (\<lambda>(obj, ex, outcome). (obj, ex))
       (resultCells 0 0
         (fst (interactive demoEnv demoRuntime ''12'' (CHR ''p'') [''ok'', '''', ''bad'', ''throw''] 0)))
     = [(1, 1), (1, 3), (1, 4), (2, 1), (2, 3), (2, 4)]"
    by (simp add: upt_rec)
  from matrix have "length (resultCells 0 0
         (fst (interactive demoEnv demoRuntime ''12'' (CHR ''p'') [''ok'', '''', ''bad'', ''throw''] 0)))
     = length ''12'' * length (filter (\<lambda>e. e \<noteq> []) [''ok'', '''', ''bad'', ''throw''])"
    by (elim conjE)
  then have count: "length (resultCells 0 0
         (fst (interactive demoEnv demoRuntime ''12'' (CHR ''p'') [''ok'', '''', ''bad'', ''throw''] 0)))
     = 2 * 3"
    by simp
  from out tags count show ?thesis by blast
qed

section \<open>The timed phase\<close>

text \<open>An iteration stops at the first evaluation that fails, in the world that
  evaluation leaves.\<close>

lemma evalObjects_append:
  "evalObjects R program params (before @ rest) w
     = (case evalObjects R program params before w of
          (Some err, w') \<Rightarrow> (Some err, w')
        | (None, w') \<Rightarrow> evalObjects R program params rest w')"
  by (induction before arbitrary: w) (simp_all split: prod.splits sum.splits)

lemma evalObjects_error:
  "evalObjects R program params objects w = (Some err, w') \<Longrightarrow>
     \<exists>object \<in> set objects. \<exists>w0. Eval R program (activation object params) w0 = (Inl err, w')"
proof (induction objects arbitrary: w)
  case Nil
  then show ?case by simp
next
  case (Cons object objects)
  obtain r w1 where ev: "Eval R program (activation object params) w = (r, w1)"
    by (cases "Eval R program (activation object params) w")
  show ?case
  proof (cases r)
    case (Inl e)
    with ev Cons.prems have "Eval R program (activation object params) w = (Inl err, w')"
      by simp
    then show ?thesis by auto
  next
    case (Inr out)
    with ev Cons.prems have "evalObjects R program params objects w1 = (Some err, w')"
      by simp
    from Cons.IH [OF this] show ?thesis by auto
  qed
qed

lemma iterations_add:
  "iterations R program params objects (k + m) w
     = (case iterations R program params objects k w of
          (Some err, w') \<Rightarrow> (Some err, w')
        | (None, w') \<Rightarrow> iterations R program params objects m w')"
  by (induction k arbitrary: w) (simp_all split: prod.splits option.splits)

lemma iterations_error:
  "iterations R program params objects n w = (Some err, w') \<Longrightarrow>
     \<exists>object \<in> set objects. \<exists>w0. Eval R program (activation object params) w0 = (Inl err, w')"
proof (induction n arbitrary: w)
  case 0
  then show ?case by simp
next
  case (Suc n)
  obtain r w1 where it: "evalObjects R program params objects w = (r, w1)"
    by (cases "evalObjects R program params objects w")
  show ?case
  proof (cases r)
    case None
    with it Suc.prems have "iterations R program params objects n w1 = (Some err, w')"
      by simp
    from Suc.IH [OF this] show ?thesis .
  next
    case (Some e)
    with it Suc.prems have "evalObjects R program params objects w = (Some err, w')"
      by simp
    then show ?thesis by (rule evalObjects_error)
  qed
qed

text \<open>The loop over the programs, cut after the programs that ran to their end.\<close>

lemma timedLoop_append:
  "timedLoop R objects params i finished stats w = (Inr stats1, w1) \<Longrightarrow>
     timedLoop R objects params i (finished @ rest) stats w
       = timedLoop R objects params (i + length finished) rest stats1 w1"
proof (induction finished arbitrary: i stats w)
  case Nil
  then show ?case by simp
next
  case (Cons program finished)
  obtain exprStart wa where start: "Now R w = (exprStart, wa)"
    by (cases "Now R w")
  obtain r wb where it: "iterations R program params objects (1024 * 1024) wa = (r, wb)"
    by (cases "iterations R program params objects (1024 * 1024) wa")
  obtain t wc where stop: "Now R wb = (t, wc)"
    by (cases "Now R wb")
  from Cons.prems start it stop have r: "r = None" and i: "i < length stats"
    by (auto split: option.splits if_splits)
  let ?stats1 = "stats[i := (stats ! i)\<lparr>duration := duration (stats ! i) + (t - exprStart)\<rparr>]"
  let ?stats2 = "?stats1[i := (?stats1 ! i)\<lparr>evalCount := 1024 * 1024\<rparr>]"
  from Cons.prems start it stop r i
  have "timedLoop R objects params (i + 1) finished ?stats2 wc = (Inr stats1, w1)"
    by (simp add: Let_def)
  from Cons.IH [OF this] start it stop r i show ?case
    by (simp add: Let_def)
qed

text \<open>
  When the loop runs to its end it has written the statistics of the programs it was
  given, each with the count \<open>1024 * 1024\<close>, and has left the others as they were.
\<close>

lemma timedLoop_stats:
  "timedLoop R objects params i programs stats w = (Inr stats', w') \<Longrightarrow>
     length stats' = length stats
     \<and> (\<forall>j. i \<le> j \<and> j < i + length programs \<longrightarrow>
            j < length stats \<and> evalCount (stats' ! j) = 1024 * 1024)
     \<and> (\<forall>j < i. stats' ! j = stats ! j)"
proof (induction programs arbitrary: i stats w)
  case Nil
  then show ?case by simp
next
  case (Cons program programs)
  obtain exprStart wa where start: "Now R w = (exprStart, wa)"
    by (cases "Now R w")
  obtain r wb where it: "iterations R program params objects (1024 * 1024) wa = (r, wb)"
    by (cases "iterations R program params objects (1024 * 1024) wa")
  obtain t wc where stop: "Now R wb = (t, wc)"
    by (cases "Now R wb")
  from Cons.prems start it stop have r: "r = None" and i: "i < length stats"
    by (auto split: option.splits if_splits)
  let ?stats1 = "stats[i := (stats ! i)\<lparr>duration := duration (stats ! i) + (t - exprStart)\<rparr>]"
  let ?stats2 = "?stats1[i := (?stats1 ! i)\<lparr>evalCount := 1024 * 1024\<rparr>]"
  from Cons.prems start it stop r i
  have "timedLoop R objects params (i + 1) programs ?stats2 wc = (Inr stats', w')"
    by (simp add: Let_def)
  from Cons.IH [OF this]
  have len: "length stats' = length ?stats2"
    and later: "\<forall>j. i + 1 \<le> j \<and> j < i + 1 + length programs \<longrightarrow>
            j < length ?stats2 \<and> evalCount (stats' ! j) = 1024 * 1024"
    and earlier: "\<forall>j < i + 1. stats' ! j = ?stats2 ! j"
    by blast+
  from earlier have here: "stats' ! i = ?stats2 ! i"
    by simp
  have "\<forall>j. i \<le> j \<and> j < i + length (program # programs) \<longrightarrow>
            j < length stats \<and> evalCount (stats' ! j) = 1024 * 1024"
  proof (intro allI impI)
    fix j assume j: "i \<le> j \<and> j < i + length (program # programs)"
    show "j < length stats \<and> evalCount (stats' ! j) = 1024 * 1024"
    proof (cases "j = i")
      case True
      with here i show ?thesis by simp
    next
      case False
      with j have "i + 1 \<le> j \<and> j < i + 1 + length programs" by simp
      with later show ?thesis by simp
    qed
  qed
  moreover have "\<forall>j < i. stats' ! j = stats ! j"
  proof (intro allI impI)
    fix j assume "j < i"
    with earlier have "stats' ! j = ?stats2 ! j" by simp
    with \<open>j < i\<close> show "stats' ! j = stats ! j" by simp
  qed
  ultimately show ?case using len by simp
qed

text \<open>With statistics for every program, as \<^verbatim>\<open>runBenchmark\<close> makes them, no index is out
  of range.\<close>

lemma timedLoop_no_panic:
  "i + length programs \<le> length stats \<Longrightarrow>
     fst (timedLoop R objects params i programs stats w) \<noteq> Inl IndexPanic"
proof (induction programs arbitrary: i stats w)
  case Nil
  show ?case by simp
next
  case (Cons program programs)
  from Cons.prems have i: "i < length stats" by simp
  obtain exprStart wa where start: "Now R w = (exprStart, wa)"
    by (cases "Now R w")
  obtain r wb where it: "iterations R program params objects (1024 * 1024) wa = (r, wb)"
    by (cases "iterations R program params objects (1024 * 1024) wa")
  obtain t wc where stop: "Now R wb = (t, wc)"
    by (cases "Now R wb")
  let ?stats1 = "stats[i := (stats ! i)\<lparr>duration := duration (stats ! i) + (t - exprStart)\<rparr>]"
  let ?stats2 = "?stats1[i := (?stats1 ! i)\<lparr>evalCount := 1024 * 1024\<rparr>]"
  from Cons.prems have "(i + 1) + length programs \<le> length ?stats2" by simp
  from Cons.IH [OF this]
  have "fst (timedLoop R objects params (i + 1) programs ?stats2 wc) \<noteq> Inl IndexPanic" .
  with start it stop i show ?case
    by (cases r) (simp_all add: Let_def)
qed

section \<open>The report\<close>

lemma totalEvals_sum: "totalEvals stats = sum_list (map evalCount stats)"
proof -
  have "fold (\<lambda>stat total. total + evalCount stat) stats a = a + sum_list (map evalCount stats)"
    for a
    by (induction stats arbitrary: a) simp_all
  then show ?thesis by (simp add: totalEvals_def)
qed

text \<open>The rate lines of the report: one for each program with a positive count, every
  one over the same total duration.\<close>

lemma reportStats_rates:
  "filter isRate (reportStats expressions totalDuration i stats :: 'val line list)
     = map (\<lambda>stat. EvaluationsPerSecond (evalCount stat) totalDuration)
         (filter (\<lambda>stat. evalCount stat > 0) stats)"
  by (induction stats arbitrary: i) simp_all

text \<open>The content lines of the report: for the statistics at position \<open>j\<close> the
  beginning of the expression at position \<open>j\<close> of the expressions as they were split.\<close>

lemma reportStats_contents:
  "filter isContent (reportStats expressions totalDuration i stats :: 'val line list)
     = map (\<lambda>j. Content (take (nat (min' 50 (int (length (expressions ! j))))) (expressions ! j)
                            @ ''...''))
         (filter (\<lambda>j. j < length expressions) [i..<i + length stats])"
proof (induction stats arbitrary: i)
  case Nil
  show ?case by simp
next
  case (Cons stat stats)
  have "[i..<i + length (stat # stats)] = i # [i + 1..<i + 1 + length stats]"
    by (simp add: upt_conv_Cons del: upt_Suc)
  with Cons.IH [of "i + 1"] show ?case
    by (simp del: upt_Suc)
qed

lemma reportStats_statistics:
  "filter isStatistic (reportStats expressions totalDuration i stats :: 'val line list)
     = reportStats expressions totalDuration i stats"
  by (induction stats arbitrary: i) simp_all

text \<open>\<^verbatim>\<open>runBenchmark\<close> when the timed phase runs to its end, and when it does not.\<close>

lemma runBenchmark_completes:
  assumes "Now R (warmUp R objects programs params w) = (startTime, w1)"
    and "timedLoop R objects params 0 programs
           (replicate (length programs) \<lparr>evalCount = 0, duration = 0\<rparr>) w1 = (Inr stats, w2)"
    and "Now R w2 = (t, w3)"
  shows "runBenchmark R objects programs params expressions w
     = (BenchmarkBanner # WarmingUp # RunningBenchmark
          # reportStats expressions (t - startTime) 0 stats
          @ [SummaryBanner, TotalDuration (t - startTime), TotalEvaluations (totalEvals stats),
             OverallEvaluationsPerSecond (totalEvals stats) (t - startTime)],
        w3)"
  using assms by (simp add: runBenchmark_def timedPhase_def Let_def)

lemma runBenchmark_aborts:
  assumes "Now R (warmUp R objects programs params w) = (startTime, w1)"
    and "timedLoop R objects params 0 programs
           (replicate (length programs) \<lparr>evalCount = 0, duration = 0\<rparr>) w1
         = (Inl (EvalAbort ordinal err), w2)"
  shows "runBenchmark R objects programs params expressions w
     = ([BenchmarkBanner, WarmingUp, RunningBenchmark, BenchmarkError ordinal err], w2)"
  using assms by (simp add: runBenchmark_def timedPhase_def Let_def)

section \<open>The small run time\<close>

lemma demoRuntime_Now: "Now demoRuntime w = (int w, w)"
  by (simp add: demoRuntime_def)

lemma demoRuntime_world: "snd (Eval demoRuntime program act w) = Suc w"
  by (simp add: demoRuntime_def)

lemma demoRuntime_evalObjects:
  assumes "program = ''throw'' \<longrightarrow> CHR ''2'' \<notin> set objects"
    and "program = ''cold'' \<longrightarrow> 10 \<le> w"
  shows "evalObjects demoRuntime program params objects w = (None, w + length objects)"
  using assms
  by (induction objects arbitrary: w) (auto simp add: demoRuntime_def activation_def)

lemma demoRuntime_iterations:
  assumes "program = ''throw'' \<longrightarrow> CHR ''2'' \<notin> set objects"
    and "program = ''cold'' \<longrightarrow> 10 \<le> w"
  shows "iterations demoRuntime program params objects n w = (None, w + n * length objects)"
  using assms(2)
proof (induction n arbitrary: w)
  case 0
  show ?case by simp
next
  case (Suc n)
  from Suc.prems have "program = ''cold'' \<longrightarrow> 10 \<le> w + length objects"
    by auto
  from Suc.IH [OF this] Suc.prems assms(1) show ?case
    by (simp add: demoRuntime_evalObjects)
qed

lemma demoRuntime_warmUp:
  "warmUp demoRuntime objects programs params w = w + 10 * (length objects * length programs)"
proof -
  have inner: "fold (\<lambda>program w. snd (Eval demoRuntime program act w)) programs w
      = w + length programs" for act w
    by (induction programs arbitrary: w) (simp_all add: demoRuntime_world)
  have outer: "fold (\<lambda>object.
        fold (\<lambda>program w. snd (Eval demoRuntime program (activation object params) w)) programs)
      objects w = w + length objects * length programs" for w
    by (induction objects arbitrary: w) (simp_all add: inner)
  have rounds: "((\<lambda>w. w + c) ^^ n) w = w + n * c" for c n and w :: nat
    by (induction n) simp_all
  have "fold (\<lambda>object.
        fold (\<lambda>program w. snd (Eval demoRuntime program (activation object params) w)) programs)
      objects = (\<lambda>w. w + length objects * length programs)"
    by (rule ext) (rule outer)
  then show ?thesis
    by (simp add: warmUp_def rounds)
qed

section \<open>Claims on the benchmark\<close>

text \<open>
  Claim C1 says that the count recorded for a program is \<open>1024 * 1024\<close> times the number
  of objects. The code records \<open>1024 * 1024\<close>, whatever the number of objects. With two
  objects the timed phase makes \<open>2 * 1024 * 1024\<close> evaluations (the world of the small
  run time counts them: 20 in the warm-up, 2097172 at the end) and the report says
  1048576; with no object it makes none and the report says 1048576 as well.
\<close>

theorem recorded_count_ignores_objects:
  "runBenchmark demoRuntime ''12'' [''ok''] (CHR ''p'') [''ok''] 0
     = ([BenchmarkBanner, WarmingUp, RunningBenchmark,
         StatsHeader 1, Content ''ok...'', Evaluations 1048576, TotalTime 2097152,
         AverageTime 2, EvaluationsPerSecond 1048576 2097152,
         SummaryBanner, TotalDuration 2097152, TotalEvaluations 1048576,
         OverallEvaluationsPerSecond 1048576 2097152],
        2097172)
   \<and> runBenchmark demoRuntime [] [''ok''] (CHR ''p'') [''ok''] 0
     = ([BenchmarkBanner, WarmingUp, RunningBenchmark,
         StatsHeader 1, Content ''ok...'', Evaluations 1048576, TotalTime 0,
         AverageTime 0, EvaluationsPerSecond 1048576 0,
         SummaryBanner, TotalDuration 0, TotalEvaluations 1048576,
         OverallEvaluationsPerSecond 1048576 0],
        0)"
proof -
  have two: "timedLoop demoRuntime ''12'' (CHR ''p'') 0 [''ok'']
        (replicate (length [''ok'']) \<lparr>evalCount = 0, duration = 0\<rparr>) 20
      = (Inr [\<lparr>evalCount = 1048576, duration = 2097152\<rparr>], 2097172)"
    by (simp add: demoRuntime_Now demoRuntime_iterations)
  have none: "timedLoop demoRuntime [] (CHR ''p'') 0 [''ok'']
        (replicate (length [''ok'']) \<lparr>evalCount = 0, duration = 0\<rparr>) 0
      = (Inr [\<lparr>evalCount = 1048576, duration = 0\<rparr>], 0)"
    by (simp add: demoRuntime_Now demoRuntime_iterations)
  have "runBenchmark demoRuntime ''12'' [''ok''] (CHR ''p'') [''ok''] 0
     = ([BenchmarkBanner, WarmingUp, RunningBenchmark,
         StatsHeader 1, Content ''ok...'', Evaluations 1048576, TotalTime 2097152,
         AverageTime 2, EvaluationsPerSecond 1048576 2097152,
         SummaryBanner, TotalDuration 2097152, TotalEvaluations 1048576,
         OverallEvaluationsPerSecond 1048576 2097152],
        2097172)"
    using runBenchmark_completes [of demoRuntime "''12''" "[''ok'']" "CHR ''p''" 0 20 20
        "[\<lparr>evalCount = 1048576, duration = 2097152\<rparr>]" 2097172 2097172 2097172 "[''ok'']"] two
    by (simp add: demoRuntime_Now demoRuntime_warmUp totalEvals_def min'_def
        signed_divide_int_def)
  moreover have "runBenchmark demoRuntime [] [''ok''] (CHR ''p'') [''ok''] 0
     = ([BenchmarkBanner, WarmingUp, RunningBenchmark,
         StatsHeader 1, Content ''ok...'', Evaluations 1048576, TotalTime 0,
         AverageTime 0, EvaluationsPerSecond 1048576 0,
         SummaryBanner, TotalDuration 0, TotalEvaluations 1048576,
         OverallEvaluationsPerSecond 1048576 0],
        0)"
    using runBenchmark_completes [of demoRuntime "[]" "[''ok'']" "CHR ''p''" 0 0 0
        "[\<lparr>evalCount = 1048576, duration = 0\<rparr>]" 0 0 0 "[''ok'']"] none
    by (simp add: demoRuntime_Now demoRuntime_warmUp totalEvals_def min'_def
        signed_divide_int_def)
  ultimately show ?thesis by simp
qed

text \<open>
  Claim C4. Let the programs before \<open>program\<close> run to their end, let \<open>program\<close> pass
  \<open>k\<close> iterations, and let it then fail on \<open>object\<close> after the objects before it.
  Then \<^verbatim>\<open>runBenchmark\<close> prints the three announcements and the error with the ordinal
  of \<open>program\<close>, and returns in the world the failing evaluation left: no line of
  statistics, of this program or a later one, and no summary.
\<close>

theorem evaluation_error_stops_benchmark:
  assumes start: "Now R (warmUp R objects (finished @ program # rest) params w) = (startTime, w1)"
    and earlier: "timedLoop R objects params 0 finished
        (replicate (length (finished @ program # rest)) \<lparr>evalCount = 0, duration = 0\<rparr>) w1
        = (Inr stats1, w2)"
    and exprStart: "Now R w2 = (exprStart, w3)"
    and k: "k < 1024 * 1024"
    and rounds: "iterations R program params objects k w3 = (None, w4)"
    and objects: "objects = before @ object # after"
    and passed: "evalObjects R program params before w4 = (None, w5)"
    and fails: "Eval R program (activation object params) w5 = (Inl err, w6)"
  shows "runBenchmark R objects (finished @ program # rest) params expressions w
      = ([BenchmarkBanner, WarmingUp, RunningBenchmark,
          BenchmarkError (length finished + 1) err], w6)
    \<and> filter isStatistic
        (fst (runBenchmark R objects (finished @ program # rest) params expressions w)) = []"
proof -
  from objects passed fails
  have "evalObjects R program params objects w4 = (Some err, w6)"
    by (simp add: evalObjects_append)
  then have "iterations R program params objects (Suc (1024 * 1024 - 1 - k)) w4 = (Some err, w6)"
    by simp
  with rounds
  have "iterations R program params objects (k + Suc (1024 * 1024 - 1 - k)) w3 = (Some err, w6)"
    by (simp only: iterations_add) simp
  moreover from k have "k + Suc (1024 * 1024 - 1 - k) = 1024 * 1024"
    by simp
  ultimately have "iterations R program params objects (1024 * 1024) w3 = (Some err, w6)"
    by simp
  with exprStart
  have "timedLoop R objects params (0 + length finished) (program # rest) stats1 w2
      = (Inl (EvalAbort (length finished + 1) err), w6)"
    by simp
  with timedLoop_append [OF earlier, of "program # rest"]
  have "timedLoop R objects params 0 (finished @ program # rest)
        (replicate (length (finished @ program # rest)) \<lparr>evalCount = 0, duration = 0\<rparr>) w1
      = (Inl (EvalAbort (length finished + 1) err), w6)"
    by simp
  from runBenchmark_aborts [OF start this, of expressions]
  show ?thesis by simp
qed

text \<open>Three objects and three programs, of which the second fails on the second object.\<close>

theorem evaluation_error_stops_benchmark_witness:
  "runBenchmark demoRuntime ''123'' [''ok'', ''throw'', ''fine''] (CHR ''p'')
      [''ok'', ''throw'', ''fine''] 0
     = ([BenchmarkBanner, WarmingUp, RunningBenchmark, BenchmarkError 2 (Error ''boom'')],
        3145820)
   \<and> filter isStatistic
        (fst (runBenchmark demoRuntime ''123'' [''ok'', ''throw'', ''fine''] (CHR ''p'')
           [''ok'', ''throw'', ''fine''] 0)) = []"
proof -
  have start: "Now demoRuntime
      (warmUp demoRuntime ''123'' ([''ok''] @ ''throw'' # [''fine'']) (CHR ''p'') 0) = (90, 90)"
    by (simp add: demoRuntime_Now demoRuntime_warmUp)
  have earlier: "timedLoop demoRuntime ''123'' (CHR ''p'') 0 [''ok'']
        (replicate (length ([''ok''] @ ''throw'' # [''fine''])) \<lparr>evalCount = 0, duration = 0\<rparr>) 90
      = (Inr [\<lparr>evalCount = 1048576, duration = 3145728\<rparr>,
              \<lparr>evalCount = 0, duration = 0\<rparr>, \<lparr>evalCount = 0, duration = 0\<rparr>], 3145818)"
    by (simp add: demoRuntime_Now demoRuntime_iterations)
  have exprStart: "Now demoRuntime 3145818 = (3145818, 3145818)"
    by (simp add: demoRuntime_Now)
  have k: "(0::nat) < 1024 * 1024"
    by simp
  have rounds: "iterations demoRuntime ''throw'' (CHR ''p'') ''123'' 0 3145818 = (None, 3145818)"
    by simp
  have objects: "''123'' = ''1'' @ CHR ''2'' # ''3''"
    by simp
  have passed: "evalObjects demoRuntime ''throw'' (CHR ''p'') ''1'' 3145818 = (None, 3145819)"
    using demoRuntime_evalObjects [of "''throw''" "''1''" 3145818 "CHR ''p''"] by simp
  have fails: "Eval demoRuntime ''throw'' (activation (CHR ''2'') (CHR ''p'')) 3145819
      = (Inl (Error ''boom''), 3145820)"
    by (simp add: demoRuntime_def activation_def)
  from evaluation_error_stops_benchmark
    [OF start earlier exprStart k rounds objects passed fails, of "[''ok'', ''throw'', ''fine'']"]
  show ?thesis by simp
qed

text \<open>
  Claim C6. When the timed phase runs to its end, the report has one rate line for
  each program, the count of that program over the total duration, from the reading
  of the clock before the first program to the reading after the last; the last rate
  line is the sum of the counts over the same duration. The duration of the program
  itself is in none of them.
\<close>

theorem rates_are_over_the_total_duration:
  fixes R :: "('prog, 'doc, 'val, 'w) runtime"
  assumes start: "Now R (warmUp R objects programs params w) = (startTime, w1)"
    and timed: "timedLoop R objects params 0 programs
        (replicate (length programs) \<lparr>evalCount = 0, duration = 0\<rparr>) w1 = (Inr stats, w2)"
    and stop: "Now R w2 = (t, w3)"
  shows "length stats = length programs
    \<and> filter isRate (fst (runBenchmark R objects programs params expressions w))
      = map (\<lambda>stat. EvaluationsPerSecond (evalCount stat) (t - startTime)) stats
        @ [OverallEvaluationsPerSecond (sum_list (map evalCount stats)) (t - startTime)]"
proof -
  from timedLoop_stats [OF timed]
  have len: "length stats = length programs"
    and counts: "\<forall>j. 0 \<le> j \<and> j < 0 + length programs \<longrightarrow> evalCount (stats ! j) = 1024 * 1024"
    by simp_all
  have "\<forall>stat \<in> set stats. evalCount stat > 0"
  proof
    fix stat assume "stat \<in> set stats"
    then obtain j where "j < length stats" "stats ! j = stat"
      by (auto simp add: in_set_conv_nth)
    with counts len show "evalCount stat > 0" by auto
  qed
  then have "filter (\<lambda>stat. evalCount stat > 0) stats = stats"
    by simp
  then have "filter isRate (reportStats expressions (t - startTime) 0 stats :: 'val line list)
      = map (\<lambda>stat. EvaluationsPerSecond (evalCount stat) (t - startTime)) stats"
    by (simp add: reportStats_rates)
  with runBenchmark_completes [OF start timed stop, of expressions] len
  show ?thesis
    by (simp add: totalEvals_sum)
qed

text \<open>One object and two programs: each takes 1048576 ns of its own, and both rates are
  over the 2097152 ns of the whole phase.\<close>

theorem rates_are_over_the_total_duration_witness:
  "runBenchmark demoRuntime ''1'' [''ok'', ''fine''] (CHR ''p'') [''ok'', ''fine''] 0
     = ([BenchmarkBanner, WarmingUp, RunningBenchmark,
         StatsHeader 1, Content ''ok...'', Evaluations 1048576, TotalTime 1048576,
         AverageTime 1, EvaluationsPerSecond 1048576 2097152,
         StatsHeader 2, Content ''fine...'', Evaluations 1048576, TotalTime 1048576,
         AverageTime 1, EvaluationsPerSecond 1048576 2097152,
         SummaryBanner, TotalDuration 2097152, TotalEvaluations 2097152,
         OverallEvaluationsPerSecond 2097152 2097152],
        2097172)
   \<and> filter isRate
        (fst (runBenchmark demoRuntime ''1'' [''ok'', ''fine''] (CHR ''p'') [''ok'', ''fine''] 0))
     = [EvaluationsPerSecond 1048576 2097152, EvaluationsPerSecond 1048576 2097152,
        OverallEvaluationsPerSecond 2097152 2097152]"
proof -
  have start: "Now demoRuntime (warmUp demoRuntime ''1'' [''ok'', ''fine''] (CHR ''p'') 0) = (20, 20)"
    by (simp add: demoRuntime_Now demoRuntime_warmUp)
  have timed: "timedLoop demoRuntime ''1'' (CHR ''p'') 0 [''ok'', ''fine'']
        (replicate (length [''ok'', ''fine'']) \<lparr>evalCount = 0, duration = 0\<rparr>) 20
      = (Inr [\<lparr>evalCount = 1048576, duration = 1048576\<rparr>,
              \<lparr>evalCount = 1048576, duration = 1048576\<rparr>], 2097172)"
    by (simp add: demoRuntime_Now demoRuntime_iterations)
  have stop: "Now demoRuntime 2097172 = (2097172, 2097172)"
    by (simp add: demoRuntime_Now)
  have out: "runBenchmark demoRuntime ''1'' [''ok'', ''fine''] (CHR ''p'') [''ok'', ''fine''] 0
     = ([BenchmarkBanner, WarmingUp, RunningBenchmark,
         StatsHeader 1, Content ''ok...'', Evaluations 1048576, TotalTime 1048576,
         AverageTime 1, EvaluationsPerSecond 1048576 2097152,
         StatsHeader 2, Content ''fine...'', Evaluations 1048576, TotalTime 1048576,
         AverageTime 1, EvaluationsPerSecond 1048576 2097152,
         SummaryBanner, TotalDuration 2097152, TotalEvaluations 2097152,
         OverallEvaluationsPerSecond 2097152 2097152],
        2097172)"
    using runBenchmark_completes [OF start timed stop, of "[''ok'', ''fine'']"]
    by (simp add: totalEvals_def min'_def signed_divide_int_def)
  from rates_are_over_the_total_duration [OF start timed stop, of "[''ok'', ''fine'']"] out
  show ?thesis by simp
qed

text \<open>
  Claim C7. The timed phase starts on statistics that are all zero, one for each
  program, in the world the warm-up leaves; the values and errors of the warm-up
  evaluations are dropped. So the output is the same when the warm-up is run on any
  other run time \<open>R'\<close> that moves the world as \<open>R\<close> does, whatever its evaluations
  return, for instance an error every time.
\<close>

theorem warmup_results_never_reach_statistics:
  assumes same_world: "\<forall>program act w. snd (Eval R' program act w) = snd (Eval R program act w)"
  shows "runBenchmark R objects programs params expressions w
     = (case timedPhase R objects programs params expressions
               (replicate (length programs) \<lparr>evalCount = 0, duration = 0\<rparr>)
               (warmUp R' objects programs params w) of
          (lines, w') \<Rightarrow> (BenchmarkBanner # WarmingUp # lines, w'))"
proof -
  from same_world have "warmUp R' objects programs params = warmUp R objects programs params"
    by (simp add: warmUp_def)
  then show ?thesis
    by (simp add: runBenchmark_def Let_def)
qed

text \<open>
  The program \<^verbatim>\<open>cold\<close> fails in each of the ten evaluations of the warm-up and in none
  after it. The report is the one of a program that never fails, and also the one
  after a warm-up in which every evaluation fails.
\<close>

theorem warmup_results_never_reach_statistics_witness:
  "fst (Eval demoRuntime ''cold'' (activation (CHR ''1'') (CHR ''p'')) 0) = Inl (Error ''cold'')
   \<and> runBenchmark demoRuntime ''1'' [''cold''] (CHR ''p'') [''cold''] 0
     = (case timedPhase demoRuntime ''1'' [''cold''] (CHR ''p'') [''cold'']
               (replicate (length [''cold'']) \<lparr>evalCount = 0, duration = 0\<rparr>)
               (warmUp (demoRuntime\<lparr>Eval := \<lambda>program act w. (Inl (Error ''failed''), Suc w)\<rparr>)
                  ''1'' [''cold''] (CHR ''p'') 0) of
          (lines, w') \<Rightarrow> (BenchmarkBanner # WarmingUp # lines, w'))
   \<and> runBenchmark demoRuntime ''1'' [''cold''] (CHR ''p'') [''cold''] 0
     = ([BenchmarkBanner, WarmingUp, RunningBenchmark,
         StatsHeader 1, Content ''cold...'', Evaluations 1048576, TotalTime 1048576,
         AverageTime 1, EvaluationsPerSecond 1048576 1048576,
         SummaryBanner, TotalDuration 1048576, TotalEvaluations 1048576,
         OverallEvaluationsPerSecond 1048576 1048576],
        1048586)"
proof -
  have same_world: "\<forall>program act w.
      snd (Eval (demoRuntime\<lparr>Eval := \<lambda>program act w. (Inl (Error ''failed''), Suc w)\<rparr>) program act w)
        = snd (Eval demoRuntime program act w)"
    by (simp add: demoRuntime_world)
  have cold: "fst (Eval demoRuntime ''cold'' (activation (CHR ''1'') (CHR ''p'')) 0)
      = Inl (Error ''cold'')"
    by (simp add: demoRuntime_def activation_def)
  have start: "Now demoRuntime (warmUp demoRuntime ''1'' [''cold''] (CHR ''p'') 0) = (10, 10)"
    by (simp add: demoRuntime_Now demoRuntime_warmUp)
  have timed: "timedLoop demoRuntime ''1'' (CHR ''p'') 0 [''cold'']
        (replicate (length [''cold'']) \<lparr>evalCount = 0, duration = 0\<rparr>) 10
      = (Inr [\<lparr>evalCount = 1048576, duration = 1048576\<rparr>], 1048586)"
    by (simp add: demoRuntime_Now demoRuntime_iterations)
  have stop: "Now demoRuntime 1048586 = (1048586, 1048586)"
    by (simp add: demoRuntime_Now)
  have out: "runBenchmark demoRuntime ''1'' [''cold''] (CHR ''p'') [''cold''] 0
     = ([BenchmarkBanner, WarmingUp, RunningBenchmark,
         StatsHeader 1, Content ''cold...'', Evaluations 1048576, TotalTime 1048576,
         AverageTime 1, EvaluationsPerSecond 1048576 1048576,
         SummaryBanner, TotalDuration 1048576, TotalEvaluations 1048576,
         OverallEvaluationsPerSecond 1048576 1048576],
        1048586)"
    using runBenchmark_completes [OF start timed stop, of "[''cold'']"]
    by (simp add: totalEvals_def min'_def signed_divide_int_def)
  from warmup_results_never_reach_statistics
    [OF same_world, of "''1''" "[''cold'']" "CHR ''p''" "[''cold'']" 0]
  have "runBenchmark demoRuntime ''1'' [''cold''] (CHR ''p'') [''cold''] 0
     = (case timedPhase demoRuntime ''1'' [''cold''] (CHR ''p'') [''cold'']
               (replicate (length [''cold'']) \<lparr>evalCount = 0, duration = 0\<rparr>)
               (warmUp (demoRuntime\<lparr>Eval := \<lambda>program act w. (Inl (Error ''failed''), Suc w)\<rparr>)
                  ''1'' [''cold''] (CHR ''p'') 0) of
          (lines, w') \<Rightarrow> (BenchmarkBanner # WarmingUp # lines, w'))" .
  with cold out show ?thesis by blast
qed

text \<open>In a list with an empty string before one that is not empty, at the position of
  the first empty string the list and its non-empty elements differ.\<close>

lemma first_empty_position:
  assumes "\<exists>j k. j < k \<and> k < length xs \<and> xs ! j = [] \<and> xs ! k \<noteq> []"
  shows "\<exists>i < length (filter (\<lambda>e. e \<noteq> []) xs).
           xs ! i = [] \<and> filter (\<lambda>e. e \<noteq> []) xs ! i \<noteq> []"
  using assms
proof (induction xs)
  case Nil
  then show ?case by simp
next
  case (Cons x xs)
  from Cons.prems obtain j k where
    jk: "j < k" "k < length (x # xs)" "(x # xs) ! j = []" "(x # xs) ! k \<noteq> []"
    by blast
  from jk(1) obtain k' where k': "k = Suc k'"
    by (cases k) auto
  with jk have later: "k' < length xs" "xs ! k' \<noteq> []"
    by simp_all
  show ?case
  proof (cases "x = []")
    case True
    from later have "xs ! k' \<in> set (filter (\<lambda>e. e \<noteq> []) xs)"
      by simp
    then have nonempty: "filter (\<lambda>e. e \<noteq> []) xs \<noteq> []"
      by (metis empty_iff empty_set)
    then have "filter (\<lambda>e. e \<noteq> []) xs ! 0 \<in> set (filter (\<lambda>e. e \<noteq> []) xs)"
      by (simp add: nth_mem del: set_filter)
    then have "filter (\<lambda>e. e \<noteq> []) xs ! 0 \<noteq> []"
      by simp
    with True nonempty show ?thesis
      by (intro exI [of _ 0]) simp
  next
    case False
    with jk(3) obtain j' where j': "j = Suc j'"
      by (cases j) auto
    with jk k' later have "\<exists>j k. j < k \<and> k < length xs \<and> xs ! j = [] \<and> xs ! k \<noteq> []"
      by auto
    from Cons.IH [OF this] obtain i where
      "i < length (filter (\<lambda>e. e \<noteq> []) xs)" "xs ! i = []" "filter (\<lambda>e. e \<noteq> []) xs ! i \<noteq> []"
      by blast
    with False show ?thesis
      by (intro exI [of _ "Suc i"]) simp
  qed
qed

text \<open>
  Claim C9. In a report, the content line of the program at position \<open>i\<close> of the
  compiled programs is the beginning of the expression at position \<open>i\<close> of the
  expressions as split, empty segments among them, while that program was compiled
  from the \<open>i\<close>-th expression that is not empty. So when an empty segment comes before
  an expression that is not empty, some program is reported with the content of
  another segment than its own, an empty one.
\<close>

theorem content_lines_follow_raw_positions:
  fixes R :: "('prog, 'doc, 'val, 'w) runtime"
  assumes compiled: "compileExpressions env expressions = Inr programs"
    and start: "Now R (warmUp R objects programs params w) = (startTime, w1)"
    and timed: "timedLoop R objects params 0 programs
        (replicate (length programs) \<lparr>evalCount = 0, duration = 0\<rparr>) w1 = (Inr stats, w2)"
    and stop: "Now R w2 = (t, w3)"
  shows "filter isContent (fst (runBenchmark R objects programs params expressions w))
      = map (\<lambda>i. Content (take (nat (min' 50 (int (length (expressions ! i))))) (expressions ! i)
                             @ ''...''))
          [0..<length programs]
    \<and> list_all2 (\<lambda>program e. Program env (fst (Compile env e)) = Inr program)
        programs (filter (\<lambda>e. e \<noteq> []) expressions)
    \<and> ((\<exists>j k. j < k \<and> k < length expressions \<and> expressions ! j = [] \<and> expressions ! k \<noteq> [])
        \<longrightarrow> (\<exists>i < length programs.
              expressions ! i = [] \<and> filter (\<lambda>e. e \<noteq> []) expressions ! i \<noteq> []
              \<and> take (nat (min' 50 (int (length (expressions ! i))))) (expressions ! i) @ ''...''
                \<noteq> take (nat (min' 50 (int (length (filter (\<lambda>e. e \<noteq> []) expressions ! i)))))
                      (filter (\<lambda>e. e \<noteq> []) expressions ! i) @ ''...''))"
proof -
  let ?sources = "filter (\<lambda>e. e \<noteq> []) expressions"
  from compiled have sources: "list_all2 (\<lambda>program e. Program env (fst (Compile env e)) = Inr program)
        programs ?sources"
    by (rule compileExpressions_programs)
  then have len: "length programs = length ?sources"
    by (rule list_all2_lengthD)
  have "length ?sources \<le> length expressions"
    by simp
  with len have within: "length programs \<le> length expressions"
    by simp
  from timedLoop_stats [OF timed] have stats: "length stats = length programs"
    by simp
  from within have "filter (\<lambda>j. j < length expressions) [0..<0 + length programs]
      = [0..<length programs]"
    by (simp add: filter_id_conv)
  with stats
  have "filter isContent (reportStats expressions (t - startTime) 0 stats :: 'val line list)
      = map (\<lambda>i. Content (take (nat (min' 50 (int (length (expressions ! i))))) (expressions ! i)
                             @ ''...''))
          [0..<length programs]"
    by (simp only: reportStats_contents)
  with runBenchmark_completes [OF start timed stop, of expressions]
  have contents: "filter isContent (fst (runBenchmark R objects programs params expressions w))
      = map (\<lambda>i. Content (take (nat (min' 50 (int (length (expressions ! i))))) (expressions ! i)
                             @ ''...''))
          [0..<length programs]"
    by simp
  have differ: "\<exists>i < length programs.
              expressions ! i = [] \<and> ?sources ! i \<noteq> []
              \<and> take (nat (min' 50 (int (length (expressions ! i))))) (expressions ! i) @ ''...''
                \<noteq> take (nat (min' 50 (int (length (?sources ! i))))) (?sources ! i) @ ''...''"
    if "\<exists>j k. j < k \<and> k < length expressions \<and> expressions ! j = [] \<and> expressions ! k \<noteq> []"
  proof -
    from first_empty_position [OF that] len obtain i where
      i: "i < length programs" "expressions ! i = []" "?sources ! i \<noteq> []"
      by auto
    from i(3) have "0 < nat (min' 50 (int (length (?sources ! i))))"
      by (simp add: min'_def)
    with i(3) have "take (nat (min' 50 (int (length (?sources ! i))))) (?sources ! i) \<noteq> []"
      by simp
    with i show ?thesis
      by auto
  qed
  from contents sources differ show ?thesis
    by blast
qed

text \<open>The expressions \<^verbatim>\<open>ok\<close>, an empty segment, \<^verbatim>\<open>fine\<close>: the program compiled from
  \<^verbatim>\<open>fine\<close> is reported with the empty content.\<close>

theorem content_lines_follow_raw_positions_witness:
  "compileExpressions demoEnv [''ok'', '''', ''fine''] = Inr [''ok'', ''fine'']
   \<and> filter isContent
        (fst (runBenchmark demoRuntime ''1'' [''ok'', ''fine''] (CHR ''p'') [''ok'', '''', ''fine''] 0))
     = [Content ''ok...'', Content ''...'']
   \<and> [''ok'', '''', ''fine''] ! 1 = []
   \<and> filter (\<lambda>e. e \<noteq> []) [''ok'', '''', ''fine''] ! 1 = ''fine''"
proof -
  have compiled: "compileExpressions demoEnv [''ok'', '''', ''fine''] = Inr [''ok'', ''fine'']"
    by (simp add: compileExpressions_def demoEnv_def issuesErr_def)
  have start: "Now demoRuntime (warmUp demoRuntime ''1'' [''ok'', ''fine''] (CHR ''p'') 0) = (20, 20)"
    by (simp add: demoRuntime_Now demoRuntime_warmUp)
  have timed: "timedLoop demoRuntime ''1'' (CHR ''p'') 0 [''ok'', ''fine'']
        (replicate (length [''ok'', ''fine'']) \<lparr>evalCount = 0, duration = 0\<rparr>) 20
      = (Inr [\<lparr>evalCount = 1048576, duration = 1048576\<rparr>,
              \<lparr>evalCount = 1048576, duration = 1048576\<rparr>], 2097172)"
    by (simp add: demoRuntime_Now demoRuntime_iterations)
  have stop: "Now demoRuntime 2097172 = (2097172, 2097172)"
    by (simp add: demoRuntime_Now)
  from content_lines_follow_raw_positions [OF compiled start timed stop]
  have "filter isContent
        (fst (runBenchmark demoRuntime ''1'' [''ok'', ''fine''] (CHR ''p'') [''ok'', '''', ''fine''] 0))
     = map (\<lambda>i. Content (take (nat (min' 50 (int (length ([''ok'', '''', ''fine''] ! i)))))
                            ([''ok'', '''', ''fine''] ! i) @ ''...''))
          [0..<length [''ok'', ''fine'']]"
    by blast
  then have "filter isContent
        (fst (runBenchmark demoRuntime ''1'' [''ok'', ''fine''] (CHR ''p'') [''ok'', '''', ''fine''] 0))
     = [Content ''ok...'', Content ''...'']"
    by (simp add: upt_rec min'_def)
  with compiled show ?thesis by simp
qed

section \<open>Splitting and skipping\<close>

text \<open>Where \<^const>\<open>Index\<close> finds the separator, the separator is.\<close>

lemma Index_found:
  "Index s sep = Some m \<Longrightarrow> s = take m s @ sep @ drop (m + length sep) s"
proof (induction s arbitrary: m)
  case Nil
  then show ?case by (simp split: if_splits)
next
  case (Cons c cs)
  show ?case
  proof (cases "take (length sep) (c # cs) = sep")
    case True
    with Cons.prems have m: "m = 0" by simp
    have "c # cs = take (length sep) (c # cs) @ drop (length sep) (c # cs)"
      by (simp only: append_take_drop_id)
    with True m show ?thesis by simp
  next
    case False
    with Cons.prems obtain k where k: "Index cs sep = Some k" "m = Suc k"
      by auto
    from Cons.IH [OF k(1)] k(2) show ?thesis by simp
  qed
qed

lemma Split_not_Nil: "sep \<noteq> [] \<Longrightarrow> Split s sep \<noteq> []"
  by (subst Split.simps) (simp split: option.splits)

text \<open>Splitting loses nothing: the segments, empty ones among them, joined by the
  separator are the text that was split.\<close>

lemma Join_Split: "sep \<noteq> [] \<Longrightarrow> Join (Split s sep) sep = s"
proof (induction s sep rule: Split.induct)
  case (1 s sep)
  show ?case
  proof (cases "Index s sep")
    case None
    with "1.prems" show ?thesis
      by (subst Split.simps) simp
  next
    case (Some m)
    from "1.prems" obtain seg segs where
      rest: "Split (drop (m + length sep) s) sep = seg # segs"
      using Split_not_Nil [of sep "drop (m + length sep) s"]
      by (cases "Split (drop (m + length sep) s) sep") auto
    from "1.IH" [OF "1.prems" Some "1.prems"]
    have "Join (Split (drop (m + length sep) s) sep) sep = drop (m + length sep) s" .
    with rest have "Join (take m s # Split (drop (m + length sep) s) sep) sep
        = take m s @ sep @ drop (m + length sep) s"
      by simp
    also from Some have "\<dots> = s"
      by (rule Index_found [symmetric])
    finally show ?thesis
      using "1.prems" Some by (subst Split.simps) simp
  qed
qed

text \<open>Compilation and interactive mode never ask the environment about the empty
  expression.\<close>

lemma compileLoop_cong_nonempty:
  assumes "\<forall>e. e \<noteq> [] \<longrightarrow> Compile env' e = Compile env e" and "Program env' = Program env"
  shows "compileLoop env' programs expressions = compileLoop env programs expressions"
  using assms
  by (induction expressions arbitrary: programs)
     (simp_all split: prod.splits option.splits sum.splits)

lemma evalCell_cong_nonempty:
  assumes "\<forall>e. e \<noteq> [] \<longrightarrow> Compile env' e = Compile env e" and "Program env' = Program env"
    and "expr \<noteq> []"
  shows "evalCell env' R object params expr w = evalCell env R object params expr w"
  using assms by (simp add: evalCell_def split: prod.splits option.splits sum.splits)

lemma expressionLoop_cong_nonempty:
  assumes same: "\<forall>e. e \<noteq> [] \<longrightarrow> Compile env' e = Compile env e"
    and bind: "Program env' = Program env"
  shows "expressionLoop env' R object params k expressions w
     = expressionLoop env R object params k expressions w"
proof (induction expressions arbitrary: k w)
  case Nil
  show ?case by simp
next
  case (Cons e expressions)
  show ?case
  proof (cases "e = []")
    case True
    with Cons.IH show ?thesis by simp
  next
    case False
    from evalCell_cong_nonempty [OF same bind False]
    have "evalCell env' R object params e w = evalCell env R object params e w" .
    with False Cons.IH show ?thesis by simp
  qed
qed

lemma objectLoop_cong_nonempty:
  assumes same: "\<forall>e. e \<noteq> [] \<longrightarrow> Compile env' e = Compile env e"
    and bind: "Program env' = Program env"
  shows "objectLoop env' R params expressions k objects w
     = objectLoop env R params expressions k objects w"
proof (induction objects arbitrary: k w)
  case Nil
  show ?case by simp
next
  case (Cons object objects)
  from expressionLoop_cong_nonempty [OF same bind]
  have "expressionLoop env' R object params 0 expressions w
      = expressionLoop env R object params 0 expressions w" .
  with Cons.IH show ?case by simp
qed

text \<open>
  Claim C5. Splitting trims the text, cuts it at every \<^verbatim>\<open>---\<close> and trims the segments;
  it keeps every segment, the empty ones too (the segments of the cut, joined by the
  separator, are the trimmed text again). Batch compilation and interactive mode pass
  over the empty expressions: changing what the environment would answer for the
  empty expression changes neither of them, the batch gives the same result as on the
  expressions that are not empty and, when it succeeds, one program for each of them,
  and no result cell of interactive mode belongs to an empty expression.
\<close>

theorem empty_expressions_kept_then_skipped:
  assumes same: "\<forall>e. e \<noteq> [] \<longrightarrow> Compile env' e = Compile env e"
    and bind: "Program env' = Program env"
  shows "splitExpressions data = map TrimSpace (Split (TrimSpace data) ''---'')
    \<and> length (splitExpressions data) = length (Split (TrimSpace data) ''---'')
    \<and> Join (Split (TrimSpace data) ''---'') ''---'' = TrimSpace data
    \<and> compileExpressions env' expressions = compileExpressions env expressions
    \<and> interactive env' R objects params expressions w
        = interactive env R objects params expressions w
    \<and> compileExpressions env expressions
        = compileExpressions env (filter (\<lambda>e. e \<noteq> []) expressions)
    \<and> (\<forall>programs. compileExpressions env expressions = Inr programs \<longrightarrow>
          list_all2 (\<lambda>program e. Program env (fst (Compile env e)) = Inr program)
            programs (filter (\<lambda>e. e \<noteq> []) expressions))
    \<and> (\<forall>(obj, ex, outcome) \<in> set (resultCells 0 0
            (fst (interactive env R objects params expressions w))).
          0 < ex \<and> ex \<le> length expressions \<and> expressions ! (ex - 1) \<noteq> [])"
proof -
  have split: "splitExpressions data = map TrimSpace (Split (TrimSpace data) ''---'')"
    by (simp add: splitExpressions_def)
  have kept: "Join (Split (TrimSpace data) ''---'') ''---'' = TrimSpace data"
    by (rule Join_Split) simp
  have batch: "compileExpressions env' expressions = compileExpressions env expressions"
    using compileLoop_cong_nonempty [OF same bind] by (simp add: compileExpressions_def)
  have matrix: "interactive env' R objects params expressions w
        = interactive env R objects params expressions w"
    using objectLoop_cong_nonempty [OF same bind] by (simp add: interactive_def)
  have skipped: "compileExpressions env expressions
        = compileExpressions env (filter (\<lambda>e. e \<noteq> []) expressions)"
    using compileLoop_filter [of env "[]" expressions] by (simp add: compileExpressions_def)
  have programs: "\<forall>programs. compileExpressions env expressions = Inr programs \<longrightarrow>
          list_all2 (\<lambda>program e. Program env (fst (Compile env e)) = Inr program)
            programs (filter (\<lambda>e. e \<noteq> []) expressions)"
    by (simp add: compileExpressions_programs)
  have cells: "\<forall>(obj, ex, outcome) \<in> set (resultCells 0 0
            (fst (interactive env R objects params expressions w))).
          0 < ex \<and> ex \<le> length expressions \<and> expressions ! (ex - 1) \<noteq> []"
  proof (clarify)
    fix obj ex outcome
    assume "(obj, ex, outcome) \<in> set (resultCells 0 0
            (fst (interactive env R objects params expressions w)))"
    then have "(obj, ex) \<in> set (map (\<lambda>(obj, ex, outcome). (obj, ex))
        (resultCells 0 0 (fst (objectLoop env R params expressions 0 objects w))))"
      by (force simp add: interactive_def)
    then have "(obj, ex) \<in> set (concat (map (\<lambda>i. map (\<lambda>j. (0 + i + 1, j + 1))
                          (filter (\<lambda>j. expressions ! j \<noteq> []) [0..<length expressions]))
                [0..<length objects]))"
      by (simp only: objectLoop_cells)
    then obtain j where "j < length expressions" "expressions ! j \<noteq> []" "ex = j + 1"
      by auto
    then show "0 < ex \<and> ex \<le> length expressions \<and> expressions ! (ex - 1) \<noteq> []"
      by simp
  qed
  from split kept batch matrix skipped programs cells show ?thesis
    by simp
qed

text \<open>
  The text \<^verbatim>\<open>a==1\<close>, \<^verbatim>\<open>---\<close>, an empty line, \<^verbatim>\<open>---\<close>, \<^verbatim>\<open>b==2\<close>, each on a line of its own:
  three segments, the second empty, and two programs. The other environment would
  refuse the empty expression if it were asked.
\<close>

theorem empty_expressions_kept_then_skipped_witness:
  "splitExpressions (''a==1'' @ [CHR 0x0A] @ ''---'' @ [CHR 0x0A, CHR 0x0A] @ ''---''
                      @ [CHR 0x0A] @ ''b==2'')
     = [''a==1'', '''', ''b==2'']
   \<and> compileExpressions demoEnv [''a==1'', '''', ''b==2''] = Inr [''a==1'', ''b==2'']
   \<and> compileExpressions
        (demoEnv\<lparr>Compile := \<lambda>e. if e = [] then ([], Some (Issues (Some (Error ''empty''))))
                                  else Compile demoEnv e\<rparr>)
        [''a==1'', '''', ''b==2'']
      = Inr [''a==1'', ''b==2'']
   \<and> fst (interactive
        (demoEnv\<lparr>Compile := \<lambda>e. if e = [] then ([], Some (Issues (Some (Error ''empty''))))
                                  else Compile demoEnv e\<rparr>)
        demoRuntime ''1'' (CHR ''p'') [''a==1'', '''', ''b==2''] 0)
      = [ObjectHeader 1, ExpressionHeader 1 ''a==1'', Result (CHR ''1''),
         ExpressionHeader 3 ''b==2'', Result (CHR ''1'')]"
proof -
  let ?env' = "demoEnv\<lparr>Compile := \<lambda>e. if e = [] then ([], Some (Issues (Some (Error ''empty''))))
                                  else Compile demoEnv e\<rparr>"
  have same: "\<forall>e. e \<noteq> [] \<longrightarrow> Compile ?env' e = Compile demoEnv e"
    by simp
  have bind: "Program ?env' = Program demoEnv"
    by simp
  note skip = empty_expressions_kept_then_skipped [OF same bind]
  have split: "splitExpressions (''a==1'' @ [CHR 0x0A] @ ''---'' @ [CHR 0x0A, CHR 0x0A] @ ''---''
                      @ [CHR 0x0A] @ ''b==2'')
     = [''a==1'', '''', ''b==2'']"
    by code_simp
  have batch: "compileExpressions demoEnv [''a==1'', '''', ''b==2''] = Inr [''a==1'', ''b==2'']"
    by (simp add: compileExpressions_def demoEnv_def issuesErr_def)
  have matrix: "fst (interactive demoEnv demoRuntime ''1'' (CHR ''p'') [''a==1'', '''', ''b==2''] 0)
      = [ObjectHeader 1, ExpressionHeader 1 ''a==1'', Result (CHR ''1''),
         ExpressionHeader 3 ''b==2'', Result (CHR ''1'')]"
    by (simp add: interactive_def evalCell_def demoEnv_def demoRuntime_def issuesErr_def
        activation_def)
  note inst = skip [of "[]" "[''a==1'', '''', ''b==2'']" demoRuntime "''1''" "CHR ''p''" 0]
  from inst have "compileExpressions ?env' [''a==1'', '''', ''b==2'']
      = compileExpressions demoEnv [''a==1'', '''', ''b==2'']"
    by (elim conjE)
  with batch
  have batch': "compileExpressions ?env' [''a==1'', '''', ''b==2''] = Inr [''a==1'', ''b==2'']"
    by simp
  from inst have "interactive ?env' demoRuntime ''1'' (CHR ''p'') [''a==1'', '''', ''b==2''] 0
      = interactive demoEnv demoRuntime ''1'' (CHR ''p'') [''a==1'', '''', ''b==2''] 0"
    by (elim conjE)
  with matrix
  have matrix': "fst (interactive ?env' demoRuntime ''1'' (CHR ''p'') [''a==1'', '''', ''b==2''] 0)
      = [ObjectHeader 1, ExpressionHeader 1 ''a==1'', Result (CHR ''1''),
         ExpressionHeader 3 ''b==2'', Result (CHR ''1'')]"
    by simp
  from split batch batch' matrix' show ?thesis
    by simp
qed

end
